theory Spec2Isabelle
  imports Complex_Main "HOL-Library.Word" "HOL-Library.AList"
begin

section \<open>JavaScript numbers\<close>

text \<open>
  A JavaScript number is a finite value, one of the two infinities, or NaN.  A finite value
  is kept as a real number, and the two zeros are one value, taken as positive where a
  division by zero needs its sign.  The operators \<open>js_add\<close>, \<open>js_sub\<close>, \<open>js_mul\<close> and
  \<open>js_div\<close> give the exact result on finite values; \<open>fl_add\<close>, \<open>fl_sub\<close>, \<open>fl_mul\<close>
  and \<open>fl_div\<close>, defined after them, round that result to binary64.  The drag arithmetic
  of the manipulator and the arithmetic of the relief renderer are written with the rounded
  operators; the layout helpers are written with the exact ones.  Every operator follows
  ECMAScript on NaN and on the infinities, so that a comparison with NaN is false and
  \<open>Infinity - Infinity\<close> is NaN.
\<close>

datatype jsnum = NaN | NegInf | Fin real | PosInf

fun js_neg :: "jsnum \<Rightarrow> jsnum" where
  "js_neg NaN = NaN"
| "js_neg NegInf = PosInf"
| "js_neg (Fin x) = Fin (- x)"
| "js_neg PosInf = NegInf"

fun js_add :: "jsnum \<Rightarrow> jsnum \<Rightarrow> jsnum" where
  "js_add NaN _ = NaN"
| "js_add _ NaN = NaN"
| "js_add (Fin x) (Fin y) = Fin (x + y)"
| "js_add PosInf NegInf = NaN"
| "js_add NegInf PosInf = NaN"
| "js_add PosInf _ = PosInf"
| "js_add NegInf _ = NegInf"
| "js_add (Fin x) b = b"

definition js_sub :: "jsnum \<Rightarrow> jsnum \<Rightarrow> jsnum" where
  "js_sub a b = js_add a (js_neg b)"

fun js_mul :: "jsnum \<Rightarrow> jsnum \<Rightarrow> jsnum" where
  "js_mul NaN _ = NaN"
| "js_mul _ NaN = NaN"
| "js_mul (Fin x) (Fin y) = Fin (x * y)"
| "js_mul (Fin x) PosInf = (if x = 0 then NaN else if 0 < x then PosInf else NegInf)"
| "js_mul (Fin x) NegInf = (if x = 0 then NaN else if 0 < x then NegInf else PosInf)"
| "js_mul PosInf (Fin y) = (if y = 0 then NaN else if 0 < y then PosInf else NegInf)"
| "js_mul NegInf (Fin y) = (if y = 0 then NaN else if 0 < y then NegInf else PosInf)"
| "js_mul PosInf PosInf = PosInf"
| "js_mul PosInf NegInf = NegInf"
| "js_mul NegInf PosInf = NegInf"
| "js_mul NegInf NegInf = PosInf"

fun js_div :: "jsnum \<Rightarrow> jsnum \<Rightarrow> jsnum" where
  "js_div NaN _ = NaN"
| "js_div _ NaN = NaN"
| "js_div (Fin x) (Fin y) =
     (if y = 0 then (if x = 0 then NaN else if 0 < x then PosInf else NegInf)
      else Fin (x / y))"
| "js_div (Fin x) PosInf = Fin 0"
| "js_div (Fin x) NegInf = Fin 0"
| "js_div PosInf (Fin y) = (if 0 \<le> y then PosInf else NegInf)"
| "js_div NegInf (Fin y) = (if 0 \<le> y then NegInf else PosInf)"
| "js_div PosInf _ = NaN"
| "js_div NegInf _ = NaN"

fun js_lt :: "jsnum \<Rightarrow> jsnum \<Rightarrow> bool" where
  "js_lt NaN _ = False"
| "js_lt _ NaN = False"
| "js_lt (Fin x) (Fin y) = (x < y)"
| "js_lt NegInf NegInf = False"
| "js_lt NegInf _ = True"
| "js_lt _ NegInf = False"
| "js_lt PosInf _ = False"
| "js_lt (Fin x) PosInf = True"

fun js_le :: "jsnum \<Rightarrow> jsnum \<Rightarrow> bool" where
  "js_le NaN _ = False"
| "js_le _ NaN = False"
| "js_le (Fin x) (Fin y) = (x \<le> y)"
| "js_le NegInf _ = True"
| "js_le _ PosInf = True"
| "js_le PosInf _ = False"
| "js_le (Fin x) NegInf = False"

definition js_gt :: "jsnum \<Rightarrow> jsnum \<Rightarrow> bool" where
  "js_gt a b = js_lt b a"

definition js_ge :: "jsnum \<Rightarrow> jsnum \<Rightarrow> bool" where
  "js_ge a b = js_le b a"

text \<open>\<open>Math.floor\<close>, \<open>Math.ceil\<close>, \<open>Math.round\<close> (ties go up), \<open>Math.max\<close> and
  \<open>Math.min\<close> (NaN if an argument is NaN).\<close>

fun Math_floor :: "jsnum \<Rightarrow> jsnum" where
  "Math_floor (Fin x) = Fin (of_int \<lfloor>x\<rfloor>)"
| "Math_floor a = a"

fun Math_ceil :: "jsnum \<Rightarrow> jsnum" where
  "Math_ceil (Fin x) = Fin (of_int \<lceil>x\<rceil>)"
| "Math_ceil a = a"

fun Math_round :: "jsnum \<Rightarrow> jsnum" where
  "Math_round (Fin x) = Fin (of_int \<lfloor>x + 1 / 2\<rfloor>)"
| "Math_round a = a"

definition Math_max :: "jsnum \<Rightarrow> jsnum \<Rightarrow> jsnum" where
  "Math_max a b = (if a = NaN \<or> b = NaN then NaN else if js_lt a b then b else a)"

definition Math_min :: "jsnum \<Rightarrow> jsnum \<Rightarrow> jsnum" where
  "Math_min a b = (if a = NaN \<or> b = NaN then NaN else if js_lt b a then b else a)"

text \<open>\<open>_.isFinite\<close> on a number.\<close>

fun isFinite :: "jsnum \<Rightarrow> bool" where
  "isFinite (Fin x) = True"
| "isFinite _ = False"

subsection \<open>Rounding to binary64\<close>

text \<open>
  The result of an arithmetic operator is the binary64 number nearest to the exact result,
  the one with the even significand at a tie.  \<open>bit_length n\<close> is the number of binary
  digits of \<open>n\<close>, and \<open>binary_exponent x\<close> is the \<open>e\<close> with \<open>2^e \<le> |x| < 2^(e+1)\<close>.
  A binary64 number with that exponent is a multiple of \<open>2^(e-52)\<close>; the exponent does not
  go below \<open>-1022\<close>, which gives the subnormal numbers, and a result that rounds to
  \<open>2^1024\<close> or beyond is an infinity.
\<close>

fun bit_length :: "nat \<Rightarrow> nat" where
  "bit_length n = (if n = 0 then 0 else Suc (bit_length (n div 2)))"

declare bit_length.simps [simp del]

definition round_half_even :: "real \<Rightarrow> int" where
  "round_half_even q =
    (let f = \<lfloor>q\<rfloor>; d = q - of_int f
     in if d < 1 / 2 then f else if 1 / 2 < d then f + 1 else if even f then f else f + 1)"

definition binary_exponent :: "real \<Rightarrow> int" where
  "binary_exponent x =
    (if 1 \<le> \<bar>x\<bar> then int (bit_length (nat \<lfloor>\<bar>x\<bar>\<rfloor>)) - 1
     else - int (bit_length (nat (\<lceil>1 / \<bar>x\<bar>\<rceil> - 1))))"

definition scale2 :: "real \<Rightarrow> int \<Rightarrow> real" where
  "scale2 x k = (if 0 \<le> k then x * 2 ^ nat k else x / 2 ^ nat (- k))"

definition round64 :: "real \<Rightarrow> jsnum" where
  "round64 x =
    (if x = 0 then Fin 0
     else let e = max (binary_exponent x) (- 1022);
              y = scale2 (of_int (round_half_even (scale2 x (52 - e)))) (e - 52)
          in if 2 ^ 1024 \<le> \<bar>y\<bar> then (if 0 < x then PosInf else NegInf) else Fin y)"

fun rounded :: "jsnum \<Rightarrow> jsnum" where
  "rounded (Fin x) = round64 x"
| "rounded a = a"

definition fl_add :: "jsnum \<Rightarrow> jsnum \<Rightarrow> jsnum" where
  "fl_add a b = rounded (js_add a b)"

definition fl_sub :: "jsnum \<Rightarrow> jsnum \<Rightarrow> jsnum" where
  "fl_sub a b = rounded (js_sub a b)"

definition fl_mul :: "jsnum \<Rightarrow> jsnum \<Rightarrow> jsnum" where
  "fl_mul a b = rounded (js_mul a b)"

definition fl_div :: "jsnum \<Rightarrow> jsnum \<Rightarrow> jsnum" where
  "fl_div a b = rounded (js_div a b)"

text \<open>Storing a number in a \<open>Uint8ClampedArray\<close>: NaN is stored as zero, any other number
  is brought into the range from 0 to 255 and rounded to the nearest whole number, to the
  even one at a tie.\<close>

fun ToUint8Clamp :: "jsnum \<Rightarrow> 8 word" where
  "ToUint8Clamp (Fin x) =
     (if x \<le> 0 then 0 else if 255 \<le> x then 255 else of_int (round_half_even x))"
| "ToUint8Clamp PosInf = 255"
| "ToUint8Clamp a = 0"

section \<open>Data model\<close>

text \<open>The view is the size of the display in pixels.\<close>

record view =
  width :: nat
  height :: nat

type_synonym point = "jsnum \<times> jsnum"

type_synonym bounds = "point \<times> point"

text \<open>
  The projection is an object of the d3 library, which is not part of the repository.  It
  is modelled as the record of the settings the code reads and writes through d3's
  accessors: calling an accessor with an argument stores it, calling it without returns
  what is stored.  \<open>p_kind\<close> is the d3 constructor that made the object.
\<close>

datatype d3_kind =
  mollweide | azimuthalEquidistant | conicEquidistant | equirectangular
  | orthographic | stereographic | polyhedron_waterman | winkel3

record projection =
  p_kind :: d3_kind
  p_rotate :: "jsnum \<times> jsnum \<times> jsnum"
  p_scale :: jsnum
  p_translate :: point
  p_precision :: jsnum
  p_clipAngle :: "jsnum option"
  p_clipExtent :: "bounds option"

text \<open>\<open>projection.rotate(array)\<close>: d3 reads the first three entries, a missing third one
  is zero and a missing first or second one is \<open>undefined\<close>, which is NaN as a number.\<close>

fun rotate_to :: "jsnum list \<Rightarrow> projection \<Rightarrow> projection" where
  "rotate_to [] p = p\<lparr>p_rotate := (NaN, NaN, Fin 0)\<rparr>"
| "rotate_to [a] p = p\<lparr>p_rotate := (a, NaN, Fin 0)\<rparr>"
| "rotate_to [a, b] p = p\<lparr>p_rotate := (a, b, Fin 0)\<rparr>"
| "rotate_to (a # b # c # _) p = p\<lparr>p_rotate := (a, b, c)\<rparr>"

text \<open>What the code uses of d3 and of the host: the minutes of
  \<open>new Date().getTimezoneOffset()\<close>, the fresh projection of each d3 constructor, the
  bounds \<open>d3.geo.path().projection(p).bounds({type: "Sphere"})\<close> and
  \<open>projection.invert\<close>, which is \<open>None\<close> where d3 returns no point.\<close>

record env =
  timezoneOffset :: real
  d3_geo :: "d3_kind \<Rightarrow> projection"
  sphere_bounds :: "projection \<Rightarrow> bounds"
  invert :: "projection \<Rightarrow> point \<Rightarrow> point option"

text \<open>An \<open>ImageData\<close>: its size and its RGBA bytes, four for each pixel, row by row.\<close>

type_synonym byte = "8 word"

record imagedata =
  i_width :: nat
  i_height :: nat
  i_data :: "byte list"

text \<open>A relief tier \<open>{img, data, loaded}\<close>; of the image only its size is read.\<close>

record relief =
  img :: "(nat \<times> nat) option"
  data :: "byte list option"
  loaded :: bool

text \<open>A canvas is a render surface outside the repository: the model keeps its size, the
  smoothing flag and the list of the drawing calls made on its 2d context, oldest first.\<close>

datatype draw_op =
  ClearRect nat nat
  | PutImageData imagedata
  | DrawImage "draw_op list" nat nat

record canvas =
  c_width :: nat
  c_height :: nat
  c_smoothing :: bool
  c_ops :: "draw_op list"

text \<open>
  The cache key of the source is a text: the numbers of the projection state and of the
  view, each written by JavaScript's number-to-text conversion, joined by commas and
  colons.  That conversion prints the shortest decimal that reads back as the same
  binary64 value, which has no counterpart on exact reals; it is injective, and no number's
  text contains a comma or a colon.  The key is therefore kept as the list of its pieces,
  the numbers unprinted: two keys are the same list exactly when the source's two texts are
  the same text.
\<close>

datatype key_piece = Num jsnum | Txt string

type_synonym cache_key = "key_piece list"

datatype variant =
  Atlantis | AzimuthalEquidistant | ConicEquidistant | Equirectangular
  | Orthographic | Stereographic | Waterman | Winkel3

text \<open>A globe: \<open>standardGlobe()\<close> extended by the overrides of its variant.\<close>

record globe =
  variant :: variant
  projection :: projection
  reliefHi :: relief
  reliefLo :: relief
  useReliefLo :: bool
  reliefFastScale :: real
  reliefFastCanvas :: "canvas option"
  reliefCanvas :: "canvas option"
  reliefCache :: "(cache_key \<times> imagedata) list"

datatype error = TypeError | IndexSizeError

section \<open>Helpers of the module\<close>

text \<open>Modelled from the spec: \<open>floorMod\<close> is a helper of the repository's utility module,
  which is not among the sources; the spec calls it the true mathematical modulo, never
  negative for a positive modulus.\<close>

definition floorMod :: "real \<Rightarrow> real \<Rightarrow> real" where
  "floorMod a n = a - n * of_int \<lfloor>a / n\<rfloor>"

text \<open>Modelled from the spec: \<open>clamp\<close> is a helper of the same absent module; it brings a
  number into the range between the two bounds.\<close>

definition clamp :: "jsnum \<Rightarrow> jsnum \<Rightarrow> jsnum \<Rightarrow> jsnum" where
  "clamp x low high = Math_max low (Math_min x high)"

definition currentPosition :: "env \<Rightarrow> jsnum list" where
  "currentPosition e = [Fin (floorMod (timezoneOffset e / 4) 360), Fin 0]"

definition ensureNumber :: "jsnum \<Rightarrow> jsnum \<Rightarrow> jsnum" where
  "ensureNumber num fallback =
     (if isFinite num \<or> num = PosInf \<or> num = NegInf then num else fallback)"

record rect =
  r_x :: jsnum
  r_y :: jsnum
  r_xMax :: jsnum
  r_yMax :: jsnum
  r_width :: jsnum
  r_height :: jsnum

definition clampedBounds :: "bounds \<Rightarrow> view \<Rightarrow> rect" where
  "clampedBounds b v =
    (let upperLeft = fst b;
         lowerRight = snd b;
         x = Math_max (Math_floor (ensureNumber (fst upperLeft) (Fin 0))) (Fin 0);
         y = Math_max (Math_floor (ensureNumber (snd upperLeft) (Fin 0))) (Fin 0);
         xMax = Math_min (Math_ceil (ensureNumber (fst lowerRight) (Fin (real (width v)))))
                  (js_sub (Fin (real (width v))) (Fin 1));
         yMax = Math_min (Math_ceil (ensureNumber (snd lowerRight) (Fin (real (height v)))))
                  (js_sub (Fin (real (height v))) (Fin 1))
     in \<lparr>r_x = x, r_y = y, r_xMax = xMax, r_yMax = yMax,
         r_width = js_add (js_sub xMax x) (Fin 1),
         r_height = js_add (js_sub yMax y) (Fin 1)\<rparr>)"

section \<open>The manipulator\<close>

text \<open>
  \<open>manipulator(startMouse, startScale)\<close> returns two closures over the globe's
  projection and over four values fixed at construction; the record holds those values,
  and \<open>move\<close> and \<open>end\<close> take the globe whose projection they mutate.  A mouse position
  is an array of two numbers; \<open>move\<close> may be called without one.  The quotients, sums and
  products that make the rotation are rounded to binary64.
\<close>

record manipulator_session =
  startMouse :: point
  sensitivity :: jsnum
  rotation :: point
  original :: jsnum

definition manipulator :: "point \<Rightarrow> jsnum \<Rightarrow> globe \<Rightarrow> manipulator_session \<times> globe" where
  "manipulator startMouse0 startScale g =
    (let p = projection g;
         sens = fl_div (Fin 60) startScale;
         rot = (fl_div (fst (p_rotate p)) sens,
                fl_div (js_neg (fst (snd (p_rotate p)))) sens);
         orig = p_precision p
     in (\<lparr>startMouse = startMouse0, sensitivity = sens, rotation = rot, original = orig\<rparr>,
         g\<lparr>projection := p\<lparr>p_precision := js_mul orig (Fin 10)\<rparr>\<rparr>))"

definition move :: "manipulator_session \<Rightarrow> point option \<Rightarrow> jsnum \<Rightarrow> globe \<Rightarrow> globe" where
  "move m mouse scale0 g =
    (let p = projection g;
         p1 = (case mouse of
                 None \<Rightarrow> p
               | Some ms \<Rightarrow>
                   (let xd = fl_add (fl_sub (fst ms) (fst (startMouse m))) (fst (rotation m));
                        yd = fl_add (fl_sub (snd ms) (snd (startMouse m))) (snd (rotation m))
                    in rotate_to [fl_mul xd (sensitivity m),
                                  fl_mul (js_neg yd) (sensitivity m),
                                  snd (snd (p_rotate p))] p))
     in g\<lparr>projection := p1\<lparr>p_scale := scale0\<rparr>\<rparr>)"


section \<open>The projections of the registry\<close>

definition precision_to :: "jsnum \<Rightarrow> projection \<Rightarrow> projection" where
  "precision_to x p = p\<lparr>p_precision := x\<rparr>"

definition clipAngle_to :: "jsnum \<Rightarrow> projection \<Rightarrow> projection" where
  "clipAngle_to x p = p\<lparr>p_clipAngle := Some x\<rparr>"

definition clipExtent_to :: "bounds \<Rightarrow> projection \<Rightarrow> projection" where
  "clipExtent_to b p = p\<lparr>p_clipExtent := Some b\<rparr>"

text \<open>The \<open>newProjection\<close> override of each of the eight variants.\<close>

fun newProjection :: "env \<Rightarrow> variant \<Rightarrow> view \<Rightarrow> projection" where
  "newProjection e Atlantis v =
     precision_to (Fin 0.1) (rotate_to [Fin 30, Fin (- 45), Fin 90] (d3_geo e mollweide))"
| "newProjection e AzimuthalEquidistant v =
     clipAngle_to (js_sub (Fin 180) (Fin 0.001))
       (rotate_to [Fin 0, Fin (- 90)] (precision_to (Fin 0.1) (d3_geo e azimuthalEquidistant)))"
| "newProjection e ConicEquidistant v =
     precision_to (Fin 0.1) (rotate_to (currentPosition e) (d3_geo e conicEquidistant))"
| "newProjection e Equirectangular v =
     precision_to (Fin 0.1) (rotate_to (currentPosition e) (d3_geo e equirectangular))"
| "newProjection e Orthographic v =
     clipAngle_to (Fin 90)
       (precision_to (Fin 0.1) (rotate_to (currentPosition e) (d3_geo e orthographic)))"
| "newProjection e Stereographic v =
     clipExtent_to ((Fin 0, Fin 0), (Fin (real (width v)), Fin (real (height v))))
       (clipAngle_to (js_sub (Fin 180) (Fin 0.0001))
         (precision_to (Fin 1.0) (rotate_to [Fin (- 43), Fin (- 20)] (d3_geo e stereographic))))"
| "newProjection e Waterman v =
     precision_to (Fin 0.1) (rotate_to [Fin 20, Fin 0] (d3_geo e polyhedron_waterman))"
| "newProjection e Winkel3 v = precision_to (Fin 0.1) (d3_geo e winkel3)"

definition standardRelief :: relief where
  "standardRelief = \<lparr>img = None, data = None, loaded = False\<rparr>"

text \<open>\<open>newGlobe(source, view)\<close>: the standard globe with the overrides of the variant
  and the variant's projection for the view.\<close>

definition newGlobe :: "env \<Rightarrow> variant \<Rightarrow> view \<Rightarrow> globe" where
  "newGlobe e k v =
     \<lparr>variant = k, projection = newProjection e k v,
      reliefHi = standardRelief, reliefLo = standardRelief, useReliefLo = False,
      reliefFastScale = 0.25, reliefFastCanvas = None, reliefCanvas = None,
      reliefCache = []\<rparr>"

text \<open>The registry: the eight constructors under their names, in the order of the
  source.\<close>

definition globes :: "(string \<times> (env \<Rightarrow> view \<Rightarrow> globe)) list" where
  "globes =
     [(''atlantis'', \<lambda>e. newGlobe e Atlantis),
      (''azimuthal_equidistant'', \<lambda>e. newGlobe e AzimuthalEquidistant),
      (''conic_equidistant'', \<lambda>e. newGlobe e ConicEquidistant),
      (''equirectangular'', \<lambda>e. newGlobe e Equirectangular),
      (''orthographic'', \<lambda>e. newGlobe e Orthographic),
      (''stereographic'', \<lambda>e. newGlobe e Stereographic),
      (''waterman'', \<lambda>e. newGlobe e Waterman),
      (''winkel3'', \<lambda>e. newGlobe e Winkel3)]"

section \<open>Layout operations of the globe\<close>

definition fit :: "env \<Rightarrow> globe \<Rightarrow> view \<Rightarrow> jsnum" where
  "fit e g v =
    (let defaultProjection = newProjection e (variant g) v;
         b = sphere_bounds e defaultProjection;
         hScale = js_div (js_sub (fst (snd b)) (fst (fst b))) (p_scale defaultProjection);
         vScale = js_div (js_sub (snd (snd b)) (snd (fst b))) (p_scale defaultProjection)
     in js_mul (Math_min (js_div (Fin (real (width v))) hScale)
                         (js_div (Fin (real (height v))) vScale))
               (Fin 0.9))"

text \<open>\<open>center\<close>, with the override of the conic equidistant variant.\<close>

definition center :: "globe \<Rightarrow> view \<Rightarrow> point" where
  "center g v =
    (if variant g = ConicEquidistant
     then (js_div (Fin (real (width v))) (Fin 2),
           js_add (js_div (Fin (real (height v))) (Fin 2))
                  (js_mul (Fin (real (height v))) (Fin 0.065)))
     else (js_div (Fin (real (width v))) (Fin 2), js_div (Fin (real (height v))) (Fin 2)))"

definition scaleExtent :: "globe \<Rightarrow> jsnum \<times> jsnum" where
  "scaleExtent g = (Fin 100, Fin 10000)"

definition globe_bounds :: "env \<Rightarrow> globe \<Rightarrow> view \<Rightarrow> rect" where
  "globe_bounds e g v = clampedBounds (sphere_bounds e (projection g)) v"

section \<open>The relief renderer\<close>

fun join_key :: "string \<Rightarrow> jsnum list \<Rightarrow> cache_key" where
  "join_key sep [] = []"
| "join_key sep [x] = [Num x]"
| "join_key sep (x # xs) = Num x # Txt sep # join_key sep xs"

text \<open>A d3 projection has the three accessors the source tests for, and they return
  arrays of three and of two numbers.\<close>

definition getReliefCacheKey :: "projection \<Rightarrow> view \<Rightarrow> cache_key" where
  "getReliefCacheKey p v =
    (let rot = (case p_rotate p of (a, b, c) \<Rightarrow> [a, b, c]);
         scl = p_scale p;
         tr = (case p_translate p of (a, b) \<Rightarrow> [a, b])
     in join_key '','' rot @ [Txt '':'', Num scl, Txt '':''] @ join_key '','' tr
        @ [Txt '':'', Num (Fin (real (width v))), Txt '':'', Num (Fin (real (height v)))])"

text \<open>\<open>createImageData\<close> gives transparent black and refuses an empty image.\<close>

definition createImageData :: "nat \<Rightarrow> nat \<Rightarrow> error + imagedata" where
  "createImageData w h =
    (if w = 0 \<or> h = 0 then Inl IndexSizeError
     else Inr \<lparr>i_width = w, i_height = h, i_data = replicate (4 * w * h) 0\<rparr>)"

text \<open>
  The alpha of a pixel is \<open>Math.round(a * 0.7)\<close> for a byte \<open>a\<close> of the source: the
  literal \<open>0.7\<close> is the binary64 number nearest to seven tenths, the product is rounded
  to binary64, \<open>Math.round\<close> gives the nearest whole number, and the output array stores
  it as a byte.
\<close>

definition attenuate :: "byte \<Rightarrow> byte" where
  "attenuate a = ToUint8Clamp (Math_round (fl_mul (Fin (real (unat a))) (round64 (7 / 10))))"

text \<open>Reading a typed array at a number: \<open>undefined\<close> unless the number is an index of
  the array.  Storing \<open>undefined\<close> in the output stores zero, and so does storing the
  alpha computed from \<open>undefined\<close>, which is NaN.\<close>

fun array_get :: "byte list \<Rightarrow> jsnum \<Rightarrow> byte option" where
  "array_get xs (Fin r) =
     (if 0 \<le> r \<and> r = of_int \<lfloor>r\<rfloor> \<and> nat \<lfloor>r\<rfloor> < length xs then Some (xs ! nat \<lfloor>r\<rfloor>)
      else None)"
| "array_get xs _ = None"

definition stored :: "byte option \<Rightarrow> byte" where
  "stored b = (case b of None \<Rightarrow> 0 | Some x \<Rightarrow> x)"

definition stored_alpha :: "byte option \<Rightarrow> byte" where
  "stored_alpha b = (case b of None \<Rightarrow> 0 | Some x \<Rightarrow> attenuate x)"

text \<open>The column and the row of the raster for a longitude and a latitude: the nearest
  pixel, the raster spanning 360 by 180 degrees.\<close>

definition raster_ix :: "nat \<Rightarrow> jsnum \<Rightarrow> jsnum" where
  "raster_ix iw lon =
     Math_round (fl_mul (fl_div (fl_add lon (Fin 180)) (Fin 360)) (fl_sub (Fin (real iw)) (Fin 1)))"

definition raster_iy :: "nat \<Rightarrow> jsnum \<Rightarrow> jsnum" where
  "raster_iy ih lat =
     Math_round (fl_mul (fl_div (fl_sub (Fin 90) lat) (Fin 180)) (fl_sub (Fin (real ih)) (Fin 1)))"

text \<open>The body of the two pixel loops after the inverse projection: \<open>lonlat\<close> is what
  \<open>projection.invert\<close> returned, \<open>oidx\<close> the offset of the output pixel.  Reading the
  size of a missing image raises.\<close>

definition composite ::
  "relief \<Rightarrow> byte list \<Rightarrow> point option \<Rightarrow> nat \<Rightarrow> byte list \<Rightarrow> error + byte list" where
  "composite rel src lonlat oidx out =
    (case lonlat of
       None \<Rightarrow> Inr out
     | Some (lon, lat) \<Rightarrow>
        (case img rel of
           None \<Rightarrow> Inl TypeError
         | Some (iw, ih) \<Rightarrow>
            (let ix = raster_ix iw lon;
                 iy = raster_iy ih lat
             in if js_lt ix (Fin 0) \<or> js_ge ix (Fin (real iw))
                   \<or> js_lt iy (Fin 0) \<or> js_ge iy (Fin (real ih))
                then Inr out
                else (let idx = fl_mul (fl_add (fl_mul iy (Fin (real iw))) ix) (Fin 4)
                      in Inr (out[oidx := stored (array_get src idx),
                                  oidx + 1 := stored (array_get src (fl_add idx (Fin 1))),
                                  oidx + 2 := stored (array_get src (fl_add idx (Fin 2))),
                                  oidx + 3 := stored_alpha (array_get src (fl_add idx (Fin 3)))])))))"

text \<open>A \<open>for\<close> loop over the given indices whose body may raise.\<close>

fun for_loop :: "'i list \<Rightarrow> ('i \<Rightarrow> 's \<Rightarrow> error + 's) \<Rightarrow> 's \<Rightarrow> error + 's" where
  "for_loop [] body s = Inr s"
| "for_loop (i # is) body s =
     (case body i s of Inl err \<Rightarrow> Inl err | Inr s' \<Rightarrow> for_loop is body s')"

text \<open>The sweep of the low-fidelity path over the working surface of \<open>fastW\<close> by
  \<open>fastH\<close> pixels, and the sweep of the high-fidelity path over the view.\<close>

definition sweep_lo ::
  "env \<Rightarrow> view \<Rightarrow> projection \<Rightarrow> relief \<Rightarrow> byte list \<Rightarrow> nat \<Rightarrow> nat \<Rightarrow> byte list
   \<Rightarrow> error + byte list" where
  "sweep_lo e v p rel src fastW fastH out0 =
     for_loop [0..<fastH] (\<lambda>y.
       for_loop [0..<fastW] (\<lambda>x out.
         (let sx = fl_mul (fl_div (Fin (real x)) (Fin (real fastW))) (Fin (real (width v)));
              sy = fl_mul (fl_div (Fin (real y)) (Fin (real fastH))) (Fin (real (height v)))
          in composite rel src (invert e p (sx, sy)) ((y * fastW + x) * 4) out))) out0"

definition sweep_hi ::
  "env \<Rightarrow> view \<Rightarrow> projection \<Rightarrow> relief \<Rightarrow> byte list \<Rightarrow> byte list \<Rightarrow> error + byte list" where
  "sweep_hi e v p rel src out0 =
     for_loop [0..<height v] (\<lambda>y.
       for_loop [0..<width v] (\<lambda>x out.
         composite rel src (invert e p (Fin (real x), Fin (real y)))
           ((y * width v + x) * 4) out)) out0"

text \<open>
  \<open>drawRelief\<close> returns nothing in the source.  The model returns, beside the globe as
  the call leaves it, the path the call took: \<open>Skipped\<close> when the tier is not loaded,
  \<open>CacheHit\<close> with the cached buffer it put on the canvas, \<open>Composited\<close> with the buffer
  the sweep filled, \<open>Raised\<close> when the call ended in an exception (the globe then is as
  the exception left it).
\<close>

datatype outcome = Skipped | CacheHit imagedata | Composited imagedata | Raised error

definition drawn :: "draw_op \<Rightarrow> canvas \<Rightarrow> canvas" where
  "drawn op' c = c\<lparr>c_ops := c_ops c @ [op']\<rparr>"

definition drawRelief :: "env \<Rightarrow> view \<Rightarrow> projection \<Rightarrow> globe \<Rightarrow> outcome \<times> globe" where
  "drawRelief e v p g =
    (let rel = (if useReliefLo g then reliefLo g else reliefHi g) in
     if \<not> loaded rel then (Skipped, g)
     else case data rel of
       None \<Rightarrow> (Skipped, g)
     | Some src \<Rightarrow>
        (case reliefCanvas g of
           None \<Rightarrow> (Raised TypeError, g)
         | Some cv \<Rightarrow>
            (let cv1 = drawn (ClearRect (width v) (height v)) cv;
                 g1 = g\<lparr>reliefCanvas := Some cv1\<rparr>;
                 cacheKey = getReliefCacheKey p v;
                 cached =
                   (if useReliefLo g then None
                    else case map_of (reliefCache g) cacheKey of
                           None \<Rightarrow> None
                         | Some c \<Rightarrow>
                             if i_width c = width v \<and> i_height c = height v then Some c
                             else None)
             in case cached of
                  Some c \<Rightarrow> (CacheHit c, g1\<lparr>reliefCanvas := Some (drawn (PutImageData c) cv1)\<rparr>)
                | None \<Rightarrow>
                   if useReliefLo g then
                     (case reliefFastCanvas g of
                        None \<Rightarrow> (Raised TypeError, g1)
                      | Some fc \<Rightarrow>
                         (case createImageData (c_width fc) (c_height fc) of
                            Inl err \<Rightarrow> (Raised err, g1)
                          | Inr outImg \<Rightarrow>
                             (case sweep_lo e v p rel src (c_width fc) (c_height fc)
                                     (i_data outImg) of
                                Inl err \<Rightarrow> (Raised err, g1)
                              | Inr d \<Rightarrow>
                                 (let out = outImg\<lparr>i_data := d\<rparr>;
                                      fc1 = drawn (PutImageData out) fc;
                                      cv2 = drawn (DrawImage (c_ops fc1) (width v) (height v))
                                              (cv1\<lparr>c_smoothing := False\<rparr>)
                                  in (Composited out,
                                      g1\<lparr>reliefFastCanvas := Some fc1,
                                         reliefCanvas := Some cv2\<rparr>)))))
                   else
                     (case createImageData (width v) (height v) of
                        Inl err \<Rightarrow> (Raised err, g1)
                      | Inr outImg \<Rightarrow>
                         (case sweep_hi e v p rel src (i_data outImg) of
                            Inl err \<Rightarrow> (Raised err, g1)
                          | Inr d \<Rightarrow>
                             (let out = outImg\<lparr>i_data := d\<rparr>
                              in (Composited out,
                                  g1\<lparr>reliefCanvas := Some (drawn (PutImageData out) cv1),
                                     reliefCache :=
                                       AList.update cacheKey out (reliefCache g)\<rparr>)))))))"


section \<open>Numbers as text\<close>

text \<open>
  Texts are ASCII.  The conversions below are those of ECMAScript on exact values: a
  decimal literal denotes its exact value, and becomes an infinity where binary64 would
  overflow, that is from \<open>2^1024 - 2^970\<close> on.
\<close>

definition digit_char :: "nat \<Rightarrow> char" where
  "digit_char d = ''0123456789'' ! d"

fun decimal :: "nat \<Rightarrow> string" where
  "decimal n = (if n < 10 then [digit_char n] else decimal (n div 10) @ [digit_char (n mod 10)])"

declare decimal.simps [simp del]

definition is_digit :: "char \<Rightarrow> bool" where
  "is_digit c = (c \<in> set ''0123456789'')"

text \<open>The value of a digit in a radix up to sixteen, \<open>None\<close> for any other character.\<close>

definition hex_table :: "(char \<times> nat) list" where
  "hex_table =
     [(CHR ''0'', 0), (CHR ''1'', 1), (CHR ''2'', 2), (CHR ''3'', 3), (CHR ''4'', 4),
      (CHR ''5'', 5), (CHR ''6'', 6), (CHR ''7'', 7), (CHR ''8'', 8), (CHR ''9'', 9),
      (CHR ''a'', 10), (CHR ''b'', 11), (CHR ''c'', 12), (CHR ''d'', 13), (CHR ''e'', 14),
      (CHR ''f'', 15), (CHR ''A'', 10), (CHR ''B'', 11), (CHR ''C'', 12), (CHR ''D'', 13),
      (CHR ''E'', 14), (CHR ''F'', 15)]"

definition hex_value :: "char \<Rightarrow> nat option" where
  "hex_value c = map_of hex_table c"

definition digit_in :: "nat \<Rightarrow> char \<Rightarrow> bool" where
  "digit_in base c = (case hex_value c of None \<Rightarrow> False | Some d \<Rightarrow> d < base)"

definition digits_value :: "nat \<Rightarrow> string \<Rightarrow> nat" where
  "digits_value base s =
     foldl (\<lambda>acc c. base * acc + (case hex_value c of None \<Rightarrow> 0 | Some d \<Rightarrow> d)) 0 s"

text \<open>Number-to-text conversion of a whole number: plain digits below \<open>10^21\<close>,
  exponent notation with the significant digits from there on.\<close>

definition strip_zeros :: "string \<Rightarrow> string" where
  "strip_zeros s = rev (dropWhile (\<lambda>c. c = CHR ''0'') (rev s))"

definition natural_text :: "nat \<Rightarrow> string" where
  "natural_text n =
    (if n < 10 ^ 21 then decimal n
     else let ds = decimal n; sig = strip_zeros ds
          in (if length sig = 1 then sig else hd sig # CHR ''.'' # tl sig)
             @ ''e+'' @ decimal (length ds - 1))"

definition integer_text :: "int \<Rightarrow> string" where
  "integer_text i = (if i < 0 then CHR ''-'' # natural_text (nat (- i)) else natural_text (nat i))"

text \<open>Number-to-text conversion on the values \<open>Math.round\<close> returns: NaN, the
  infinities, and whole numbers (for which the floor below is the number itself).\<close>

fun whole_text :: "jsnum \<Rightarrow> string" where
  "whole_text NaN = ''NaN''"
| "whole_text PosInf = ''Infinity''"
| "whole_text NegInf = ''-Infinity''"
| "whole_text (Fin x) = integer_text \<lfloor>x\<rfloor>"

text \<open>\<open>toFixed(2)\<close>: the sign, then the nearest count of hundredths (the larger one at
  a tie) written with at least one digit before the point.  From \<open>10^21\<close> on the method
  returns the number's text; a binary64 value of that size is a whole number.\<close>

fun toFixed2 :: "jsnum \<Rightarrow> string" where
  "toFixed2 (Fin x) =
    (let s = (if x < 0 then [CHR ''-''] else []);
         ax = \<bar>x\<bar>
     in if 10 ^ 21 \<le> ax then s @ natural_text (nat \<lfloor>ax\<rfloor>)
        else let n = nat \<lfloor>ax * 100 + 1 / 2\<rfloor>;
                 m = decimal n;
                 m' = (if length m \<le> 2 then replicate (3 - length m) CHR ''0'' @ m else m)
             in s @ take (length m' - 2) m' @ [CHR ''.''] @ drop (length m' - 2) m')"
| "toFixed2 a = whole_text a"

text \<open>Text-to-number conversion (the unary plus on a text).\<close>

definition is_space :: "char \<Rightarrow> bool" where
  "is_space c = (c \<in> set [CHR 0x09, CHR 0x0A, CHR 0x0B, CHR 0x0C, CHR 0x0D, CHR '' ''])"

definition trim :: "string \<Rightarrow> string" where
  "trim s = rev (dropWhile is_space (rev (dropWhile is_space s)))"

text \<open>The part before the first character that satisfies \<open>P\<close>, and the part after it if
  there is such a character.\<close>

definition split_at :: "(char \<Rightarrow> bool) \<Rightarrow> string \<Rightarrow> string \<times> string option" where
  "split_at P s =
     (takeWhile (\<lambda>c. \<not> P c) s,
      case dropWhile (\<lambda>c. \<not> P c) s of [] \<Rightarrow> None | _ # r \<Rightarrow> Some r)"

definition number_value :: "real \<Rightarrow> jsnum" where
  "number_value x =
     (if 2 ^ 1024 - 2 ^ 970 \<le> \<bar>x\<bar> then (if 0 < x then PosInf else NegInf) else Fin x)"

definition parse_digits :: "string \<Rightarrow> nat option" where
  "parse_digits s = (if s \<noteq> [] \<and> list_all is_digit s then Some (digits_value 10 s) else None)"

definition parse_exponent :: "string \<Rightarrow> int option" where
  "parse_exponent s =
    (case s of
       [] \<Rightarrow> None
     | c # r \<Rightarrow>
        if c = CHR ''+'' then map_option int (parse_digits r)
        else if c = CHR ''-'' then map_option (\<lambda>n. - int n) (parse_digits r)
        else map_option int (parse_digits s))"

definition scale10 :: "real \<Rightarrow> int \<Rightarrow> real" where
  "scale10 x k = (if 0 \<le> k then x * 10 ^ nat k else x / 10 ^ nat (- k))"

definition is_exponent_mark :: "char \<Rightarrow> bool" where
  "is_exponent_mark c = (c = CHR ''e'' \<or> c = CHR ''E'')"

definition is_point :: "char \<Rightarrow> bool" where
  "is_point c = (c = CHR ''.'')"

definition parse_unsigned_decimal :: "string \<Rightarrow> real option" where
  "parse_unsigned_decimal s =
    (case split_at is_exponent_mark s of
       (mant, ex) \<Rightarrow>
        (case split_at is_point mant of
           (ip, fp) \<Rightarrow>
            (let fd = (case fp of None \<Rightarrow> [] | Some f \<Rightarrow> f);
                 m = real (digits_value 10 ip) + real (digits_value 10 fd) / 10 ^ length fd
             in if list_all is_digit ip \<and> list_all is_digit fd \<and> (ip \<noteq> [] \<or> fd \<noteq> [])
                then (case ex of
                        None \<Rightarrow> Some m
                      | Some x \<Rightarrow> map_option (scale10 m) (parse_exponent x))
                else None)))"

definition parse_unsigned :: "string \<Rightarrow> jsnum" where
  "parse_unsigned s =
    (if s = ''Infinity'' then PosInf
     else case parse_unsigned_decimal s of None \<Rightarrow> NaN | Some x \<Rightarrow> number_value x)"

definition parse_in_base :: "nat \<Rightarrow> string \<Rightarrow> real option" where
  "parse_in_base base s =
    (if s \<noteq> [] \<and> list_all (digit_in base) s then Some (real (digits_value base s)) else None)"

text \<open>The literals \<open>0x\<close>, \<open>0o\<close> and \<open>0b\<close>, which take no sign.\<close>

definition parse_radix :: "string \<Rightarrow> real option" where
  "parse_radix s =
    (case s of
       c # d # r \<Rightarrow>
        if c \<noteq> CHR ''0'' then None
        else if d = CHR ''x'' \<or> d = CHR ''X'' then parse_in_base 16 r
        else if d = CHR ''o'' \<or> d = CHR ''O'' then parse_in_base 8 r
        else if d = CHR ''b'' \<or> d = CHR ''B'' then parse_in_base 2 r
        else None
     | _ \<Rightarrow> None)"

definition StringToNumber :: "string \<Rightarrow> jsnum" where
  "StringToNumber str =
    (let t = trim str in
     case t of
       [] \<Rightarrow> Fin 0
     | c # r \<Rightarrow>
        (case parse_radix t of
           Some x \<Rightarrow> number_value x
         | None \<Rightarrow>
            if c = CHR ''-'' then js_neg (parse_unsigned r)
            else if c = CHR ''+'' then parse_unsigned r
            else parse_unsigned t))"

text \<open>The unary plus on an array entry: a missing entry is \<open>undefined\<close>, which is NaN.\<close>

definition to_number :: "string option \<Rightarrow> jsnum" where
  "to_number s = (case s of None \<Rightarrow> NaN | Some t \<Rightarrow> StringToNumber t)"

definition entry :: "'a list \<Rightarrow> nat \<Rightarrow> 'a option" where
  "entry xs i = (if i < length xs then Some (xs ! i) else None)"

fun split :: "char \<Rightarrow> string \<Rightarrow> string list" where
  "split sep [] = [[]]"
| "split sep (c # cs) =
     (if c = sep then [] # split sep cs
      else (case split sep cs of [] \<Rightarrow> [[c]] | w # ws \<Rightarrow> (c # w) # ws))"

fun join :: "string \<Rightarrow> string list \<Rightarrow> string" where
  "join sep [] = []"
| "join sep [x] = x"
| "join sep (x # xs) = x @ sep @ join sep xs"

section \<open>Orientation\<close>

text \<open>
  \<open>orientation(o, view)\<close>: with a text it mutates the globe and returns it, without one
  (\<open>None\<close>: null or undefined) it returns the text of the current orientation.  A view is
  passed with every text.
\<close>

definition orientation :: "env \<Rightarrow> string option \<Rightarrow> view \<Rightarrow> globe \<Rightarrow> string + globe" where
  "orientation e o' v g =
    (let proj = projection g; rot = p_rotate proj in
     case o' of
       Some txt \<Rightarrow>
        (let parts = split CHR '','' txt;
             lam = to_number (entry parts 0);
             phi = to_number (entry parts 1);
             scale0 = to_number (entry parts 2);
             extent = scaleExtent g;
             p1 = rotate_to
                    (if isFinite lam \<and> isFinite phi
                     then [js_neg lam, js_neg phi, snd (snd rot)]
                     else (case p_rotate (newProjection e (variant g) v) of
                             (a, b, c) \<Rightarrow> [a, b, c]))
                    proj;
             p2 = p1\<lparr>p_scale := (if isFinite scale0
                                  then clamp scale0 (fst extent) (snd extent)
                                  else fit e g v)\<rparr>;
             p3 = p2\<lparr>p_translate := center g v\<rparr>
         in Inr (g\<lparr>projection := p3\<rparr>))
     | None \<Rightarrow>
        Inl (join '',''
              [toFixed2 (js_neg (fst rot)), toFixed2 (js_neg (fst (snd rot))),
               whole_text (Math_round (p_scale proj))]))"

section \<open>Example inputs\<close>

text \<open>
  An environment for the concrete checks below: the host is five hours west of Greenwich,
  a fresh d3 projection has scale 150 and translate (480, 250), the sphere spans three
  scale units to each side and one and a half up and down, and the inverse projection is
  the linear one of a plate carree with sixty degrees for each scale unit, absent off the
  globe.
\<close>

definition example_projection :: "d3_kind \<Rightarrow> projection" where
  "example_projection k =
     \<lparr>p_kind = k, p_rotate = (Fin 0, Fin 0, Fin 0), p_scale = Fin 150,
      p_translate = (Fin 480, Fin 250), p_precision = Fin 0.7,
      p_clipAngle = None, p_clipExtent = None\<rparr>"

definition example_bounds :: "projection \<Rightarrow> bounds" where
  "example_bounds p =
    (let t = p_translate p; s = p_scale p
     in ((js_sub (fst t) (js_mul (Fin 3) s), js_sub (snd t) (js_mul (Fin 1.5) s)),
         (js_add (fst t) (js_mul (Fin 3) s), js_add (snd t) (js_mul (Fin 1.5) s))))"

definition example_invert :: "projection \<Rightarrow> point \<Rightarrow> point option" where
  "example_invert p xy =
    (let t = p_translate p; s = p_scale p;
         lon = js_mul (js_div (js_sub (fst xy) (fst t)) s) (Fin 60);
         lat = js_mul (js_div (js_sub (snd t) (snd xy)) s) (Fin 60)
     in if js_le (Fin (- 180)) lon \<and> js_le lon (Fin 180)
           \<and> js_le (Fin (- 90)) lat \<and> js_le lat (Fin 90)
        then Some (lon, lat) else None)"

definition example_env :: env where
  "example_env =
     \<lparr>timezoneOffset = 300, d3_geo = example_projection,
      sphere_bounds = example_bounds, invert = example_invert\<rparr>"

definition example_view :: view where
  "example_view = \<lparr>width = 800, height = 400\<rparr>"

definition example_globe :: globe where
  "example_globe = newGlobe example_env Equirectangular example_view"

text \<open>The example globe turned to the longitude that JavaScript reads from \<open>123.45\<close>:
  the binary64 number nearest to it.\<close>

definition turned_globe :: globe where
  "turned_globe =
     example_globe\<lparr>projection :=
       (projection example_globe)\<lparr>p_rotate := (Fin (8687021468732621 / 2 ^ 46), Fin 0, Fin 0)\<rparr>\<rparr>"

section \<open>Properties as predicates\<close>

text \<open>A constructor of the registry takes its default rotation from the timezone when,
  in every environment, the rotation of the globe it builds is the one
  \<open>currentPosition\<close> computes there; its rotation is fixed when it is the same in two
  environments that differ in the timezone only.\<close>

definition rotation_from_timezone :: "(env \<Rightarrow> view \<Rightarrow> globe) \<Rightarrow> bool" where
  "rotation_from_timezone c =
     (\<forall>e v. p_rotate (projection (c e v))
              = (Fin (floorMod (timezoneOffset e / 4) 360), Fin 0, Fin 0))"

definition rotation_fixed :: "(env \<Rightarrow> view \<Rightarrow> globe) \<Rightarrow> bool" where
  "rotation_fixed c =
     (\<forall>e v t. p_rotate (projection (c (e\<lparr>timezoneOffset := t\<rparr>) v))
                = p_rotate (projection (c e v)))"

text \<open>The setter of \<open>orientation\<close> as a step on globes, and a sequence of such steps.\<close>

definition oriented :: "env \<Rightarrow> string \<times> view \<Rightarrow> globe \<Rightarrow> globe" where
  "oriented e ov g =
     (case orientation e (Some (fst ov)) (snd ov) g of Inr g' \<Rightarrow> g' | Inl _ \<Rightarrow> g)"


text \<open>A small globe with both relief tiers loaded from a raster of two pixels, a view of
  four by two pixels with its canvas, and the working surface of one pixel.\<close>

definition small_relief :: relief where
  "small_relief =
     \<lparr>img = Some (2, 1), data = Some [10, 20, 30, 255, 40, 50, 60, 45], loaded = True\<rparr>"

definition small_view :: view where
  "small_view = \<lparr>width = 4, height = 2\<rparr>"

definition small_projection :: "jsnum \<Rightarrow> projection" where
  "small_projection s =
     (example_projection equirectangular)\<lparr>p_scale := s, p_translate := (Fin 2, Fin 1)\<rparr>"

definition small_globe :: globe where
  "small_globe =
     (newGlobe example_env Equirectangular small_view)
       \<lparr>projection := small_projection (Fin (1 / 2)),
        reliefHi := small_relief, reliefLo := small_relief,
        reliefFastCanvas := Some \<lparr>c_width = 1, c_height = 1, c_smoothing = True, c_ops = []\<rparr>,
        reliefCanvas := Some \<lparr>c_width = 4, c_height = 2, c_smoothing = True, c_ops = []\<rparr>\<rparr>"

section \<open>Facts about binary64 rounding\<close>

text \<open>The rounding error is at most half a unit in the last place: in the normal range
  the result of \<open>round64\<close> is finite and differs from its argument by at most one part in
  \<open>2^53\<close>, and a whole number below \<open>2^53\<close> is not changed.\<close>

lemmas fl_defs =
  round64_def binary_exponent_def round_half_even_def scale2_def bit_length.simps Let_def
  fl_add_def fl_sub_def fl_mul_def fl_div_def js_sub_def

lemma bit_length_bounds:
  "0 < n \<Longrightarrow> 2 ^ (bit_length n - 1) \<le> n \<and> n < 2 ^ bit_length n"
proof (induction n rule: bit_length.induct)
  case (1 n)
  have bl: "bit_length n = Suc (bit_length (n div 2))"
    using 1(2) by (simp add: bit_length.simps [of n])
  show ?case
  proof (cases "n div 2 = 0")
    case True
    with 1(2) have "n = 1" by (simp add: div_eq_0_iff) 
    then show ?thesis by (simp add: bit_length.simps)
  next
    case False
    then have pos: "0 < n div 2" by simp
    with 1 have lo: "2 ^ (bit_length (n div 2) - 1) \<le> n div 2"
      and hi: "n div 2 < 2 ^ bit_length (n div 2)" by auto
    have l: "0 < bit_length (n div 2)"
      using False by (simp add: bit_length.simps [of "n div 2"])
    then have "(2::nat) ^ bit_length (n div 2) = 2 * 2 ^ (bit_length (n div 2) - 1)"
      by (cases "bit_length (n div 2)") simp_all
    with lo hi show ?thesis
      unfolding bl by (simp) linarith
  qed
qed

lemma bit_length_pos: "0 < n \<Longrightarrow> 0 < bit_length n"
  by (simp add: bit_length.simps [of n])

lemma round_half_even_error: "\<bar>of_int (round_half_even q) - q\<bar> \<le> 1 / 2"
  unfolding round_half_even_def Let_def by (auto; linarith)

lemma round_half_even_int: "round_half_even (of_int z) = z"
  by (simp add: round_half_even_def)

lemma scale2_powi: "scale2 x k = x * 2 powi k"
  by (cases "0 \<le> k") (simp_all add: scale2_def power_int_def inverse_eq_divide power_one_over)



lemma powi_pred: "0 < l \<Longrightarrow> (2::real) powi (int l - 1) = 2 ^ (l - 1)"
proof -
  assume l: "0 < l"
  have "int l - 1 = int (l - 1)" using l by simp
  then show ?thesis by (simp only: power_int_of_nat)
qed

lemma powi_neg: "(2::real) powi (- int l) = 1 / 2 ^ l"
  by (simp only: power_int_minus power_int_of_nat inverse_eq_divide)

lemma powi_neg_succ: "0 < l \<Longrightarrow> (2::real) powi (- int l + 1) = 1 / 2 ^ (l - 1)"
proof -
  assume l: "0 < l"
  have "- int l + 1 = - int (l - 1)" using l by simp
  then show ?thesis
    by (simp only: power_int_minus power_int_of_nat inverse_eq_divide)
qed

lemma pow_le_real: "(2::nat) ^ k \<le> n \<Longrightarrow> (2::real) ^ k \<le> real n"
proof -
  assume "(2::nat) ^ k \<le> n"
  then have "real (2 ^ k) \<le> real n" by (simp only: of_nat_le_iff)
  then show ?thesis by simp
qed

lemma less_pow_real: "n < 2 ^ l \<Longrightarrow> real n + 1 \<le> 2 ^ l"
proof -
  assume "n < 2 ^ l"
  then have "Suc n \<le> 2 ^ l" by simp
  then have "real (Suc n) \<le> real (2 ^ l)" by (simp only: of_nat_le_iff)
  then show ?thesis by simp
qed

lemma binary_exponent_bounds:
  assumes "x \<noteq> 0"
  shows "2 powi binary_exponent x \<le> \<bar>x\<bar> \<and> \<bar>x\<bar> < 2 powi (binary_exponent x + 1)"
proof (cases "1 \<le> \<bar>x\<bar>")
  case True
  define n where "n = nat \<lfloor>\<bar>x\<bar>\<rfloor>"
  have rn: "real n = of_int \<lfloor>\<bar>x\<bar>\<rfloor>"
    unfolding n_def by simp
  have n: "0 < n" "real n \<le> \<bar>x\<bar>" "\<bar>x\<bar> < real n + 1"
    unfolding rn using True by (simp add: n_def le_floor_iff, linarith, linarith)
  have e: "binary_exponent x = int (bit_length n) - 1"
    using True by (simp add: binary_exponent_def n_def)
  from bit_length_bounds [OF n(1)]
  have lo: "(2::nat) ^ (bit_length n - 1) \<le> n" and hi: "n < 2 ^ bit_length n" by simp_all
  have l: "0 < bit_length n" using n(1) by (rule bit_length_pos)
  have p2: "(2::real) powi (int (bit_length n) - 1 + 1) = 2 ^ bit_length n"
    by (simp add: power_int_def)
  from pow_le_real [OF lo] less_pow_real [OF hi] show ?thesis
    unfolding e powi_pred [OF l] p2 using n by linarith
next
  case False
  then have x1: "\<bar>x\<bar> < 1" by simp
  have x0: "0 < \<bar>x\<bar>" using assms by simp
  define t where "t = 1 / \<bar>x\<bar>"
  have t1: "1 < t" using x0 x1 by (simp add: t_def)
  have t0: "0 < t" using t1 by linarith
  have xt: "\<bar>x\<bar> = 1 / t" by (simp add: t_def)
  define n where "n = nat (\<lceil>t\<rceil> - 1)"
  have c: "2 \<le> \<lceil>t\<rceil>" using t1 by linarith
  have rn: "real n = of_int \<lceil>t\<rceil> - 1"
    unfolding n_def using c by simp
  have n: "0 < n" "real n < t" "t \<le> real n + 1"
    unfolding rn using c by (simp add: n_def, linarith, linarith)
  have e: "binary_exponent x = - int (bit_length n)"
    using False by (simp add: binary_exponent_def n_def t_def)
  from bit_length_bounds [OF n(1)]
  have lo: "(2::nat) ^ (bit_length n - 1) \<le> n" and hi: "n < 2 ^ bit_length n" by simp_all
  have l: "0 < bit_length n" using n(1) by (rule bit_length_pos)
  have a: "(2::real) ^ (bit_length n - 1) < t"
    using pow_le_real [OF lo] n by linarith
  have b: "t \<le> 2 ^ bit_length n"
    using less_pow_real [OF hi] n by linarith
  have "1 / 2 ^ bit_length n \<le> 1 / t"
    using b t0 by (intro divide_left_mono) simp_all
  moreover have "1 / t < 1 / 2 ^ (bit_length n - 1)"
    using a t0 by (intro divide_strict_left_mono) simp_all
  ultimately show ?thesis
    unfolding e powi_neg powi_neg_succ [OF l] xt by simp
qed

lemma round64_error:
  assumes "x \<noteq> 0"
  shows "\<exists>y. \<bar>y - x\<bar> \<le> 2 powi (max (binary_exponent x) (- 1022) - 53) \<and>
     round64 x = (if 2 ^ 1024 \<le> \<bar>y\<bar> then (if 0 < x then PosInf else NegInf) else Fin y)"
proof -
  define e where "e = max (binary_exponent x) (- 1022)"
  define u where "u = (2::real) powi (e - 52)"
  define q where "q = x * 2 powi (52 - e)"
  define y where "y = of_int (round_half_even q) * u"
  have "(2::real) powi (52 - e) * u = 2 powi ((52 - e) + (e - 52))"
    unfolding u_def by (rule power_int_add [symmetric]) simp
  then have "(2::real) powi (52 - e) * u = 1" by simp
  then have x: "x = q * u" unfolding q_def by (simp add: mult.assoc)
  have u0: "0 < u" unfolding u_def by simp
  have "y - x = (of_int (round_half_even q) - q) * u"
    unfolding y_def by (subst x) (simp add: algebra_simps)
  then have "\<bar>y - x\<bar> = \<bar>of_int (round_half_even q) - q\<bar> * u"
    using u0 by (simp add: abs_mult)
  also have "\<dots> \<le> 1 / 2 * u"
    using round_half_even_error [of q] u0 by (intro mult_right_mono) simp_all
  also have "1 / 2 * u = 2 powi (e - 53)"
  proof -
    have "u = 2 powi ((e - 53) + 1)" unfolding u_def by simp
    also have "\<dots> = 2 powi (e - 53) * 2 powi 1" by (rule power_int_add) simp
    finally show ?thesis by simp
  qed
  finally have err: "\<bar>y - x\<bar> \<le> 2 powi (e - 53)" .
  have "round64 x = (if 2 ^ 1024 \<le> \<bar>y\<bar> then (if 0 < x then PosInf else NegInf) else Fin y)"
    using assms by (simp add: round64_def Let_def scale2_powi e_def y_def q_def u_def)
  with err show ?thesis unfolding e_def by blast
qed

lemma round64_rel:
  assumes lo: "1 / 2 ^ 1022 \<le> \<bar>x\<bar>" and hi: "\<bar>x\<bar> \<le> 2 ^ 1023"
  shows "\<exists>y. round64 x = Fin y \<and> \<bar>y - x\<bar> \<le> \<bar>x\<bar> / 2 ^ 53"
proof -
  have x0: "x \<noteq> 0" "0 < \<bar>x\<bar>"
  proof -
    have "(0::real) < 1 / 2 ^ 1022" by simp
    with lo show "0 < \<bar>x\<bar>" by linarith
    then show "x \<noteq> 0" by simp
  qed
  define e where "e = binary_exponent x"
  from binary_exponent_bounds [OF x0(1)]
  have b: "2 powi e \<le> \<bar>x\<bar>" "\<bar>x\<bar> < 2 powi (e + 1)" unfolding e_def by simp_all
  have e: "- 1022 \<le> e"
  proof (rule ccontr)
    assume "\<not> - 1022 \<le> e"
    then have "e + 1 \<le> - 1022" by simp
    then have "(2::real) powi (e + 1) \<le> 2 powi (- 1022)"
      by (rule power_int_increasing) simp
    also have "\<dots> = 1 / 2 ^ 1022"
      by (simp only: power_int_minus_divide power_int_numeral)
    finally show False using lo b(2) by linarith
  qed
  then have m: "max (binary_exponent x) (- 1022) = e" unfolding e_def by simp
  from round64_error [OF x0(1)] obtain y where
    err: "\<bar>y - x\<bar> \<le> 2 powi (e - 53)"
    and r: "round64 x = (if 2 ^ 1024 \<le> \<bar>y\<bar> then (if 0 < x then PosInf else NegInf) else Fin y)"
    unfolding m by blast
  have "(2::real) powi (e - 53) = 2 powi e * 2 powi (- 53)"
    using power_int_add [of "2::real" e "- 53"] by simp
  also have "\<dots> = 2 powi e / 2 ^ 53"
    by (simp only: power_int_minus_divide power_int_numeral) simp
  also have "\<dots> \<le> \<bar>x\<bar> / 2 ^ 53"
    using b(1) by (intro divide_right_mono) simp_all
  finally have rel: "\<bar>y - x\<bar> \<le> \<bar>x\<bar> / 2 ^ 53" using err by linarith
  have "\<bar>x\<bar> / 2 ^ 53 < \<bar>x\<bar>" using x0(2) by simp
  with rel have "\<bar>y\<bar> < 2 * \<bar>x\<bar>" by linarith
  also have "\<dots> \<le> 2 * 2 ^ 1023" using hi by simp
  also have "\<dots> = (2::real) ^ 1024" by simp
  finally have "\<not> 2 ^ 1024 \<le> \<bar>y\<bar>" by simp
  with r rel show ?thesis by simp
qed

lemma round64_zero: "round64 0 = Fin 0"
  by (simp add: round64_def)

lemma round64_nat:
  assumes "n < 2 ^ 53"
  shows "round64 (real n) = Fin (real n)"
proof (cases "n = 0")
  case True
  then show ?thesis by (simp add: round64_def)
next
  case False
  then have n: "0 < n" by simp
  define l where "l = bit_length n"
  from bit_length_bounds [OF n]
  have lo: "(2::nat) ^ (l - 1) \<le> n" unfolding l_def by simp
  have l0: "0 < l" unfolding l_def using n by (rule bit_length_pos)
  have "(2::nat) ^ (l - 1) < 2 ^ 53" using lo assms by linarith
  then have l53: "l - 1 < 53" by (rule power_less_imp_less_exp [rotated]) simp
  have be: "binary_exponent (real n) = int l - 1"
    using n by (simp add: binary_exponent_def l_def)
  define k where "k = 53 - l"
  have k: "52 - (int l - 1) = int k" "int l - 1 - 52 = - int k"
    using l53 l0 unfolding k_def by simp_all
  have m: "max (int l - 1) (- 1022) = int l - 1" using l0 by simp
  have s1: "scale2 (real n) (int k) = of_int (int (n * 2 ^ k))"
    by (simp add: scale2_def)
  have s2: "scale2 (of_int (int (n * 2 ^ k))) (- int k) = real n"
    by (simp add: scale2_def)
  have big: "\<not> 2 ^ 1024 \<le> \<bar>real n\<bar>"
  proof -
    have "real n < real (2 ^ 53)" using assms by (simp only: of_nat_less_iff)
    also have "\<dots> \<le> 2 ^ 1024" by simp
    finally show ?thesis by simp
  qed
  show ?thesis
    unfolding round64_def Let_def be m k s1 round_half_even_int s2
    using False big by simp
qed

lemma rel_range:
  fixes x y :: real
  assumes "\<bar>y - x\<bar> \<le> \<bar>x\<bar> / 2 ^ 53"
  shows "\<bar>x\<bar> / 2 \<le> \<bar>y\<bar> \<and> \<bar>y\<bar> \<le> 2 * \<bar>x\<bar>"
proof -
  have "\<bar>x\<bar> / 2 ^ 53 \<le> \<bar>x\<bar> / 2"
    by (intro divide_left_mono) simp_all
  with assms show ?thesis by linarith
qed

lemma round64_range:
  fixes x :: real
  assumes "1 / 2 ^ 400 \<le> \<bar>x\<bar>" and "\<bar>x\<bar> \<le> 2 ^ 400"
  shows "\<exists>y. round64 x = Fin y \<and> \<bar>y - x\<bar> \<le> \<bar>x\<bar> / 2 ^ 53"
proof (rule round64_rel)
  have "(1::real) / 2 ^ 1022 \<le> 1 / 2 ^ 400" by simp
  with assms(1) show "1 / 2 ^ 1022 \<le> \<bar>x\<bar>" by linarith
  have "(2::real) ^ 400 \<le> 2 ^ 1023" by simp
  with assms(2) show "\<bar>x\<bar> \<le> 2 ^ 1023" by linarith
qed

lemma abs_mult_range:
  fixes a b :: real
  assumes "la \<le> \<bar>a\<bar>" "\<bar>a\<bar> \<le> ha" "lb \<le> \<bar>b\<bar>" "\<bar>b\<bar> \<le> hb" "0 \<le> la" "0 \<le> lb"
  shows "la * lb \<le> \<bar>a * b\<bar> \<and> \<bar>a * b\<bar> \<le> ha * hb"
  unfolding abs_mult using assms by (intro conjI mult_mono) simp_all

lemma abs_divide_range:
  fixes a b :: real
  assumes "la \<le> \<bar>a\<bar>" "\<bar>a\<bar> \<le> ha" "lb \<le> \<bar>b\<bar>" "\<bar>b\<bar> \<le> hb" "0 \<le> la" "0 < lb"
  shows "la / hb \<le> \<bar>a / b\<bar> \<and> \<bar>a / b\<bar> \<le> ha / lb"
  unfolding abs_divide using assms by (intro conjI frac_le) simp_all

lemma drag_offset:
  assumes c: "1 / 2 ^ 100 \<le> c" "c \<le> 2 ^ 100"
    and r: "1 / 2 ^ 100 \<le> \<bar>r\<bar>" "\<bar>r\<bar> \<le> 2 ^ 100"
  shows "\<exists>q. fl_add (fl_sub (Fin a) (Fin a)) (fl_div (Fin r) (Fin c)) = Fin q \<and>
             \<bar>q - r / c\<bar> \<le> \<bar>r / c\<bar> * (3 / 2 ^ 53) \<and> 1 / 2 ^ 202 \<le> \<bar>q\<bar> \<and> \<bar>q\<bar> \<le> 2 ^ 202"
proof -
  have "(0::real) < 1 / 2 ^ 100" by simp
  with c(1) have c0: "0 < c" by linarith
  then have ca: "\<bar>c\<bar> = c" by simp
  define t where "t = r / c"
  from abs_divide_range [of "1 / 2 ^ 100" r "2 ^ 100" "1 / 2 ^ 100" c "2 ^ 100"] c r
  have t: "1 / 2 ^ 200 \<le> \<bar>t\<bar>" "\<bar>t\<bar> \<le> 2 ^ 200"
    unfolding t_def ca by simp_all
  have "1 / 2 ^ 400 \<le> \<bar>t\<bar>" "\<bar>t\<bar> \<le> 2 ^ 400"
    using t by simp_all
  from round64_range [OF this] obtain q1 where
    q1: "round64 t = Fin q1" "\<bar>q1 - t\<bar> \<le> \<bar>t\<bar> / 2 ^ 53" by blast
  from rel_range [OF q1(2)] have q1r: "\<bar>t\<bar> / 2 \<le> \<bar>q1\<bar>" "\<bar>q1\<bar> \<le> 2 * \<bar>t\<bar>" by simp_all
  have "1 / 2 ^ 400 \<le> \<bar>q1\<bar>" "\<bar>q1\<bar> \<le> 2 ^ 400"
    using t q1r by simp_all
  from round64_range [OF this] obtain q where
    q: "round64 q1 = Fin q" "\<bar>q - q1\<bar> \<le> \<bar>q1\<bar> / 2 ^ 53" by blast
  from rel_range [OF q(2)] have qr: "\<bar>q1\<bar> / 2 \<le> \<bar>q\<bar>" "\<bar>q\<bar> \<le> 2 * \<bar>q1\<bar>" by simp_all
  have fl: "fl_add (fl_sub (Fin a) (Fin a)) (fl_div (Fin r) (Fin c)) = Fin q"
    using c0 q1(1) q(1)
    by (simp add: fl_add_def fl_sub_def fl_div_def js_sub_def round64_zero t_def)
  have "\<bar>q1\<bar> / 2 ^ 53 \<le> 2 * \<bar>t\<bar> / 2 ^ 53"
    using q1r(2) by (intro divide_right_mono) simp_all
  then have "\<bar>q - q1\<bar> + \<bar>q1 - t\<bar> \<le> 2 * \<bar>t\<bar> / 2 ^ 53 + \<bar>t\<bar> / 2 ^ 53"
    using q(2) q1(2) by linarith
  moreover have "\<bar>q - t\<bar> \<le> \<bar>q - q1\<bar> + \<bar>q1 - t\<bar>" by linarith
  moreover have "2 * \<bar>t\<bar> / 2 ^ 53 + \<bar>t\<bar> / 2 ^ 53 = \<bar>t\<bar> * (3 / 2 ^ 53)" by simp
  ultimately have close: "\<bar>q - t\<bar> \<le> \<bar>t\<bar> * (3 / 2 ^ 53)" by linarith
  have "1 / 2 ^ 202 \<le> \<bar>q\<bar>" "\<bar>q\<bar> \<le> 2 ^ 202"
    using t q1r qr by simp_all
  with fl close show ?thesis unfolding t_def by blast
qed

lemma drag_restore:
  assumes c: "1 / 2 ^ 100 \<le> c" "c \<le> 2 ^ 100"
    and q: "\<bar>q - r / c\<bar> \<le> \<bar>r / c\<bar> * (3 / 2 ^ 53)" "1 / 2 ^ 202 \<le> \<bar>q\<bar>" "\<bar>q\<bar> \<le> 2 ^ 202"
  shows "\<exists>x. fl_mul (Fin q) (Fin c) = Fin x \<and> \<bar>x - r\<bar> \<le> \<bar>r\<bar> / 2 ^ 50"
proof -
  have "(0::real) < 1 / 2 ^ 100" by simp
  with c(1) have c0: "0 < c" by linarith
  then have ca: "\<bar>c\<bar> = c" by simp
  from abs_mult_range [of "1 / 2 ^ 202" q "2 ^ 202" "1 / 2 ^ 100" c "2 ^ 100"] c q(2,3)
  have p: "1 / 2 ^ 302 \<le> \<bar>q * c\<bar>" "\<bar>q * c\<bar> \<le> 2 ^ 302"
    unfolding ca by simp_all
  have "1 / 2 ^ 400 \<le> \<bar>q * c\<bar>" "\<bar>q * c\<bar> \<le> 2 ^ 400"
    using p by simp_all
  from round64_range [OF this] obtain x where
    x: "round64 (q * c) = Fin x" "\<bar>x - q * c\<bar> \<le> \<bar>q * c\<bar> / 2 ^ 53" by blast
  have "q * c - r = (q - r / c) * c" using c0 by (simp add: field_simps)
  then have "\<bar>q * c - r\<bar> = \<bar>q - r / c\<bar> * c" using c0 by (simp add: abs_mult)
  also have "\<dots> \<le> \<bar>r / c\<bar> * (3 / 2 ^ 53) * c"
    using q(1) c0 by (intro mult_right_mono) simp_all
  also have "\<dots> = \<bar>r\<bar> * (3 / 2 ^ 53)" using c0 by (simp add: abs_divide)
  finally have a: "\<bar>q * c - r\<bar> \<le> \<bar>r\<bar> * (3 / 2 ^ 53)" .
  have "\<bar>r\<bar> * (3 / 2 ^ 53) \<le> \<bar>r\<bar> * 1" by (intro mult_left_mono) simp_all
  with a have "\<bar>q * c\<bar> \<le> 2 * \<bar>r\<bar>" by linarith
  then have "\<bar>q * c\<bar> / 2 ^ 53 \<le> 2 * \<bar>r\<bar> / 2 ^ 53"
    by (intro divide_right_mono) simp_all
  with x(2) a have "\<bar>x - q * c\<bar> + \<bar>q * c - r\<bar> \<le> 2 * \<bar>r\<bar> / 2 ^ 53 + \<bar>r\<bar> * (3 / 2 ^ 53)"
    by linarith
  moreover have "\<bar>x - r\<bar> \<le> \<bar>x - q * c\<bar> + \<bar>q * c - r\<bar>" by linarith
  moreover have "2 * \<bar>r\<bar> / 2 ^ 53 + \<bar>r\<bar> * (3 / 2 ^ 53) = \<bar>r\<bar> * (5 / 2 ^ 53)" by simp
  moreover have "\<bar>r\<bar> * (5 / 2 ^ 53) \<le> \<bar>r\<bar> * (1 / 2 ^ 50)" by (intro mult_left_mono) simp_all
  ultimately have "\<bar>x - r\<bar> \<le> \<bar>r\<bar> * (1 / 2 ^ 50)" by linarith
  then have "\<bar>x - r\<bar> \<le> \<bar>r\<bar> / 2 ^ 50" by simp
  with x(1) show ?thesis by (simp add: fl_mul_def)
qed

lemma sensitivity_range:
  assumes "1 / 2 ^ 64 \<le> k" "k \<le> 2 ^ 64"
  shows "\<exists>c. fl_div (Fin 60) (Fin k) = Fin c \<and> 1 / 2 ^ 100 \<le> c \<and> c \<le> 2 ^ 100"
proof -
  have "(0::real) < 1 / 2 ^ 64" by simp
  with assms(1) have k0: "0 < k" by linarith
  then have ka: "\<bar>k\<bar> = k" by simp
  define t where "t = 60 / k"
  have t0: "0 < t" unfolding t_def using k0 by simp
  from abs_divide_range [of 60 60 60 "1 / 2 ^ 64" k "2 ^ 64"] assms
  have t: "60 / 2 ^ 64 \<le> t" "t \<le> 60 * 2 ^ 64"
    unfolding ka using t0 by (simp_all add: t_def)
  have "1 / 2 ^ 400 \<le> \<bar>t\<bar>" "\<bar>t\<bar> \<le> 2 ^ 400"
    using t t0 by simp_all
  from round64_range [OF this] obtain c where
    c: "round64 t = Fin c" "\<bar>c - t\<bar> \<le> \<bar>t\<bar> / 2 ^ 53" by blast
  have "\<bar>t\<bar> / 2 ^ 53 \<le> \<bar>t\<bar> / 2" by (intro divide_left_mono) simp_all
  with c(2) t0 have "t / 2 \<le> c" "c \<le> 2 * t" by linarith+
  with t have "1 / 2 ^ 100 \<le> c" "c \<le> 2 ^ 100" by simp_all
  moreover have "fl_div (Fin 60) (Fin k) = Fin c"
    using k0 c(1) by (simp add: fl_div_def t_def)
  ultimately show ?thesis by blast
qed

section \<open>Facts about the manipulator\<close>




lemma example_rotation: "p_rotate (projection example_globe) = (Fin 75, Fin 0, Fin 0)"
  by (simp add: example_globe_def newGlobe_def precision_to_def currentPosition_def
      example_env_def example_projection_def floorMod_def)

text \<open>
  C10 as the spec states it: \<open>move(startMouse, s)\<close> restores the first two rotation
  components to their values at session construction.  The session divides the rotation
  by the sensitivity and \<open>move\<close> multiplies by it again, and the two roundings need not
  cancel: on the globe turned to the longitude \<open>123.45\<close>, a session begun at the scale
  500 brings the longitude back as \<open>123.44999999999999\<close>.
\<close>

theorem move_restore_counterexample:
  "(let s = manipulator (Fin 10, Fin 20) (Fin 500) turned_globe;
        lon = fst (p_rotate (projection (move (fst s) (Some (Fin 10, Fin 20)) (Fin 500) (snd s))))
    in lon = Fin (2171755367183155 / 2 ^ 44) \<and> lon \<noteq> fst (p_rotate (projection turned_globe)))"
  by (simp add: manipulator_def move_def turned_globe_def fl_defs)

text \<open>With a start scale of zero the sensitivity is infinite, and \<open>move\<close> with the start
  position sets NaN.\<close>

lemma move_zero_scale:
  "(let s = manipulator (Fin 10, Fin 20) (Fin 0) example_globe
    in p_rotate (projection (move (fst s) (Some (Fin 10, Fin 20)) (Fin 500) (snd s))))
   = (NaN, NaN, Fin 0)"
  by (simp add: manipulator_def move_def example_rotation fl_defs)

lemma move_twice: "move m mouse s (move m mouse s g') = move m mouse s g'"
  by (cases mouse) (auto simp: move_def Let_def)

lemma move_rotation:
  "fst (p_rotate (projection (move m (Some ms) s g')))
     = fl_mul (fl_add (fl_sub (fst ms) (fst (startMouse m))) (fst (rotation m))) (sensitivity m)"
  "fst (snd (p_rotate (projection (move m (Some ms) s g'))))
     = fl_mul (js_neg (fl_add (fl_sub (snd ms) (snd (startMouse m))) (snd (rotation m))))
         (sensitivity m)"
  "p_scale (projection (move m mouse s g')) = s"
  by (cases mouse; simp add: move_def Let_def)+

lemma drag_back_first:
  assumes c: "1 / 2 ^ 100 \<le> c" "c \<le> 2 ^ 100"
    and r: "r = 0 \<or> 1 / 2 ^ 64 \<le> \<bar>r\<bar> \<and> \<bar>r\<bar> \<le> 2 ^ 64"
  shows "\<exists>x. fl_mul (fl_add (fl_sub (Fin a) (Fin a)) (fl_div (Fin r) (Fin c))) (Fin c) = Fin x
              \<and> \<bar>x - r\<bar> \<le> \<bar>r\<bar> / 2 ^ 50"
proof (cases "r = 0")
  case True
  have "(0::real) < 1 / 2 ^ 100" by simp
  with c(1) have "c \<noteq> 0" by linarith
  with True show ?thesis
    by (simp add: fl_mul_def fl_add_def fl_sub_def fl_div_def js_sub_def round64_zero)
next
  case False
  with r have "1 / 2 ^ 64 \<le> \<bar>r\<bar>" "\<bar>r\<bar> \<le> 2 ^ 64" by simp_all
  then have "1 / 2 ^ 100 \<le> \<bar>r\<bar>" "\<bar>r\<bar> \<le> 2 ^ 100" by simp_all
  from drag_offset [OF c this, of a] obtain q where
    q: "fl_add (fl_sub (Fin a) (Fin a)) (fl_div (Fin r) (Fin c)) = Fin q"
      "\<bar>q - r / c\<bar> \<le> \<bar>r / c\<bar> * (3 / 2 ^ 53)" "1 / 2 ^ 202 \<le> \<bar>q\<bar>" "\<bar>q\<bar> \<le> 2 ^ 202"
    by blast
  from drag_restore [OF c q(2-4)] show ?thesis unfolding q(1) .
qed

lemma drag_back_second:
  assumes c: "1 / 2 ^ 100 \<le> c" "c \<le> 2 ^ 100"
    and r: "r = 0 \<or> 1 / 2 ^ 64 \<le> \<bar>r\<bar> \<and> \<bar>r\<bar> \<le> 2 ^ 64"
  shows "\<exists>x. fl_mul (js_neg (fl_add (fl_sub (Fin a) (Fin a)) (fl_div (js_neg (Fin r)) (Fin c))))
                (Fin c) = Fin x
              \<and> \<bar>x - r\<bar> \<le> \<bar>r\<bar> / 2 ^ 50"
proof (cases "r = 0")
  case True
  have "(0::real) < 1 / 2 ^ 100" by simp
  with c(1) have "c \<noteq> 0" by linarith
  with True show ?thesis
    by (simp add: fl_mul_def fl_add_def fl_sub_def fl_div_def js_sub_def round64_zero)
next
  case False
  with r have "1 / 2 ^ 64 \<le> \<bar>r\<bar>" "\<bar>r\<bar> \<le> 2 ^ 64" by simp_all
  then have "1 / 2 ^ 100 \<le> \<bar>- r\<bar>" "\<bar>- r\<bar> \<le> 2 ^ 100" by simp_all
  from drag_offset [OF c this, of a] obtain q where
    q: "fl_add (fl_sub (Fin a) (Fin a)) (fl_div (Fin (- r)) (Fin c)) = Fin q"
      "\<bar>q - (- r) / c\<bar> \<le> \<bar>(- r) / c\<bar> * (3 / 2 ^ 53)" "1 / 2 ^ 202 \<le> \<bar>q\<bar>" "\<bar>q\<bar> \<le> 2 ^ 202"
    by blast
  have "\<bar>- q - r / c\<bar> = \<bar>q - (- r) / c\<bar>" by simp
  with q(2) have "\<bar>- q - r / c\<bar> \<le> \<bar>r / c\<bar> * (3 / 2 ^ 53)" by simp
  moreover have "1 / 2 ^ 202 \<le> \<bar>- q\<bar>" "\<bar>- q\<bar> \<le> 2 ^ 202" using q(3,4) by simp_all
  ultimately obtain x where
    "fl_mul (Fin (- q)) (Fin c) = Fin x" "\<bar>x - r\<bar> \<le> \<bar>r\<bar> / 2 ^ 50"
    using drag_restore [OF c, of "- q" r] by blast
  then show ?thesis by (simp add: q(1))
qed

text \<open>
  C10, amended: \<open>move\<close> is absolute.  Calling it twice with the same mouse position and
  scale leaves the globe as calling it once does, for every session and every state of the
  globe; the scale it sets is the one given, and the first two rotation components it sets
  are the same whatever state the globe was in, so they depend on the session and the
  mouse position only.  For a session begun at a finite mouse position with a start scale
  between \<open>2^-64\<close> and \<open>2^64\<close>, \<open>move\<close> with the start position gives each of the first
  two rotation components its value at construction up to the rounding of the division
  and the multiplication by the sensitivity: the relative error is at most \<open>2^-50\<close>,
  for a component that is zero or of a magnitude between \<open>2^-64\<close> and \<open>2^64\<close>.  A
  component that is zero comes back as zero.
\<close>

theorem move_absolute:
  "move m mouse s (move m mouse s g') = move m mouse s g' \<and>
   p_scale (projection (move m mouse s g')) = s \<and>
   fst (p_rotate (projection (move m (Some ms) s g')))
     = fst (p_rotate (projection (move m (Some ms) s g''))) \<and>
   fst (snd (p_rotate (projection (move m (Some ms) s g'))))
     = fst (snd (p_rotate (projection (move m (Some ms) s g'')))) \<and>
   (manipulator (Fin a, Fin b) (Fin k) g = (m, g1) \<and> 1 / 2 ^ 64 \<le> k \<and> k \<le> 2 ^ 64 \<and>
    fst (p_rotate (projection g)) = Fin r0 \<and> fst (snd (p_rotate (projection g))) = Fin r1 \<and>
    (r0 = 0 \<or> 1 / 2 ^ 64 \<le> \<bar>r0\<bar> \<and> \<bar>r0\<bar> \<le> 2 ^ 64) \<and>
    (r1 = 0 \<or> 1 / 2 ^ 64 \<le> \<bar>r1\<bar> \<and> \<bar>r1\<bar> \<le> 2 ^ 64) \<longrightarrow>
      (\<exists>x y. fst (p_rotate (projection (move m (Some (Fin a, Fin b)) s g'))) = Fin x \<and>
             fst (snd (p_rotate (projection (move m (Some (Fin a, Fin b)) s g')))) = Fin y \<and>
             \<bar>x - r0\<bar> \<le> \<bar>r0\<bar> / 2 ^ 50 \<and> \<bar>y - r1\<bar> \<le> \<bar>r1\<bar> / 2 ^ 50))"
proof -
  have restore: "\<exists>x y. fst (p_rotate (projection (move m (Some (Fin a, Fin b)) s g'))) = Fin x \<and>
             fst (snd (p_rotate (projection (move m (Some (Fin a, Fin b)) s g')))) = Fin y \<and>
             \<bar>x - r0\<bar> \<le> \<bar>r0\<bar> / 2 ^ 50 \<and> \<bar>y - r1\<bar> \<le> \<bar>r1\<bar> / 2 ^ 50"
    if mk: "manipulator (Fin a, Fin b) (Fin k) g = (m, g1)"
      and k: "1 / 2 ^ 64 \<le> k" "k \<le> 2 ^ 64"
      and rot: "fst (p_rotate (projection g)) = Fin r0" "fst (snd (p_rotate (projection g))) = Fin r1"
      and r0: "r0 = 0 \<or> 1 / 2 ^ 64 \<le> \<bar>r0\<bar> \<and> \<bar>r0\<bar> \<le> 2 ^ 64"
      and r1: "r1 = 0 \<or> 1 / 2 ^ 64 \<le> \<bar>r1\<bar> \<and> \<bar>r1\<bar> \<le> 2 ^ 64"
  proof -
    from sensitivity_range [OF k] obtain c where
      c: "fl_div (Fin 60) (Fin k) = Fin c" "1 / 2 ^ 100 \<le> c" "c \<le> 2 ^ 100" by blast
    from mk have m: "startMouse m = (Fin a, Fin b)" "sensitivity m = Fin c"
      "rotation m = (fl_div (Fin r0) (Fin c), fl_div (js_neg (Fin r1)) (Fin c))"
      by (auto simp: manipulator_def Let_def c(1) rot)
    from drag_back_first [OF c(2,3) r0, of a] obtain x where
      x: "fl_mul (fl_add (fl_sub (Fin a) (Fin a)) (fl_div (Fin r0) (Fin c))) (Fin c) = Fin x"
        "\<bar>x - r0\<bar> \<le> \<bar>r0\<bar> / 2 ^ 50" by blast
    from drag_back_second [OF c(2,3) r1, of b] obtain y where
      y: "fl_mul (js_neg (fl_add (fl_sub (Fin b) (Fin b)) (fl_div (js_neg (Fin r1)) (Fin c))))
            (Fin c) = Fin y"
        "\<bar>y - r1\<bar> \<le> \<bar>r1\<bar> / 2 ^ 50" by blast
    have "fst (p_rotate (projection (move m (Some (Fin a, Fin b)) s g'))) = Fin x"
      unfolding move_rotation(1) m using x(1) by simp
    moreover have "fst (snd (p_rotate (projection (move m (Some (Fin a, Fin b)) s g')))) = Fin y"
      unfolding move_rotation(2) m using y(1) by simp
    ultimately show ?thesis using x(2) y(2) by blast
  qed
  have "fst (p_rotate (projection (move m (Some ms) s g')))
          = fst (p_rotate (projection (move m (Some ms) s g'')))"
    and "fst (snd (p_rotate (projection (move m (Some ms) s g'))))
          = fst (snd (p_rotate (projection (move m (Some ms) s g''))))"
    unfolding move_rotation by (rule refl)+
  with move_twice [of m mouse s g'] move_rotation(3) [of m mouse s g'] restore
  show ?thesis by blast
qed

theorem move_absolute_witness:
  "(let s = manipulator (Fin 10, Fin 20) (Fin 150) example_globe;
        g' = move (fst s) (Some (Fin 30, Fin 5)) (Fin 200) (snd s)
    in move (fst s) (Some (Fin 30, Fin 5)) (Fin 200) g' = g' \<and>
       p_scale (projection g') = Fin 200 \<and>
       (\<exists>x. fst (p_rotate (projection (move (fst s) (Some (Fin 10, Fin 20)) (Fin 200) g'))) = Fin x
            \<and> \<bar>x - 75\<bar> \<le> 75 / 2 ^ 50) \<and>
       fst (snd (p_rotate (projection (move (fst s) (Some (Fin 10, Fin 20)) (Fin 200) g')))) = Fin 0)"
proof -
  define s where "s = manipulator (Fin 10, Fin 20) (Fin 150) example_globe"
  define g' where "g' = move (fst s) (Some (Fin 30, Fin 5)) (Fin 200) (snd s)"
  have mk: "manipulator (Fin 10, Fin 20) (Fin 150) example_globe = (fst s, snd s)"
    unfolding s_def by simp
  have rot: "fst (p_rotate (projection example_globe)) = Fin 75"
    "fst (snd (p_rotate (projection example_globe))) = Fin 0"
    by (simp_all add: example_rotation)
  from move_absolute [of "fst s" "Some (Fin 30, Fin 5)" "Fin 200" "snd s"]
  have a: "move (fst s) (Some (Fin 30, Fin 5)) (Fin 200) g' = g'"
    and b: "p_scale (projection g') = Fin 200"
    unfolding g'_def by blast+
  have hyp: "manipulator (Fin 10, Fin 20) (Fin 150) example_globe = (fst s, snd s) \<and>
      1 / 2 ^ 64 \<le> (150::real) \<and> (150::real) \<le> 2 ^ 64 \<and>
      fst (p_rotate (projection example_globe)) = Fin 75 \<and>
      fst (snd (p_rotate (projection example_globe))) = Fin 0 \<and>
      ((75::real) = 0 \<or> 1 / 2 ^ 64 \<le> \<bar>75::real\<bar> \<and> \<bar>75::real\<bar> \<le> 2 ^ 64) \<and>
      ((0::real) = 0 \<or> 1 / 2 ^ 64 \<le> \<bar>0::real\<bar> \<and> \<bar>0::real\<bar> \<le> 2 ^ 64)"
    using mk rot by simp
  note t = move_absolute [of "fst s" "Some (Fin 10, Fin 20)" "Fin 200" g' "(Fin 10, Fin 20)" g'
      10 20 150 example_globe "snd s" 75 0]
  from t [THEN conjunct2, THEN conjunct2, THEN conjunct2, THEN conjunct2, THEN mp, OF hyp]
  obtain x y where
    x: "fst (p_rotate (projection (move (fst s) (Some (Fin 10, Fin 20)) (Fin 200) g'))) = Fin x"
    and y: "fst (snd (p_rotate (projection (move (fst s) (Some (Fin 10, Fin 20)) (Fin 200) g')))) = Fin y"
    and xe: "\<bar>x - 75\<bar> \<le> \<bar>75\<bar> / 2 ^ 50" and ye: "\<bar>y - 0\<bar> \<le> \<bar>0\<bar> / 2 ^ 50"
    by blast
  from ye have "y = 0" by simp
  with y have "fst (snd (p_rotate (projection (move (fst s) (Some (Fin 10, Fin 20)) (Fin 200) g')))) = Fin 0"
    by simp
  moreover from x xe
  have "\<exists>x. fst (p_rotate (projection (move (fst s) (Some (Fin 10, Fin 20)) (Fin 200) g'))) = Fin x
            \<and> \<bar>x - 75\<bar> \<le> 75 / 2 ^ 50"
    by simp
  ultimately have "(\<exists>x. fst (p_rotate (projection (move (fst s) (Some (Fin 10, Fin 20)) (Fin 200) g'))) = Fin x
            \<and> \<bar>x - 75\<bar> \<le> 75 / 2 ^ 50)"
    and "fst (snd (p_rotate (projection (move (fst s) (Some (Fin 10, Fin 20)) (Fin 200) g')))) = Fin 0"
    by blast+
  with a b show ?thesis
    unfolding s_def [symmetric] g'_def [symmetric] Let_def by (intro conjI)
qed

section \<open>Facts about bounds, fit and the registry\<close>

text \<open>
  C2: the rectangle of \<open>clampedBounds\<close> is to lie within the view and to have a width
  and a height of at least zero; the comment of the function calls it the projection
  bounds clamped to the specified view.  The code clamps \<open>x\<close> and \<open>y\<close> from below and
  \<open>xMax\<close> and \<open>yMax\<close> from above only.  For the sphere of a fresh d3 projection,
  \<open>[[330, 100], [630, 400]]\<close>, and a view of 100 by 100 pixels it returns \<open>x = 330\<close>,
  which is beyond the view, and the width \<open>99 - 330 + 1\<close>.
\<close>

theorem clampedBounds_beyond_view:
  "clampedBounds ((Fin 330, Fin 100), (Fin 630, Fin 400)) \<lparr>width = 100, height = 100\<rparr>
     = \<lparr>r_x = Fin 330, r_y = Fin 100, r_xMax = Fin 99, r_yMax = Fin 99,
        r_width = Fin (- 230), r_height = Fin 0\<rparr>"
  by (simp add: clampedBounds_def Let_def ensureNumber_def Math_max_def Math_min_def
      js_sub_def)

text \<open>Bounds further to the right give the width \<open>99 - 500 + 1\<close>.\<close>

lemma clampedBounds_width_negative:
  "\<not> js_ge (r_width (clampedBounds ((Fin 500, Fin 10), (Fin 600, Fin 20))
                       \<lparr>width = 100, height = 100\<rparr>)) (Fin 0)"
  by (simp add: clampedBounds_def Let_def ensureNumber_def Math_max_def Math_min_def
      js_sub_def js_ge_def)

lemma clamped_low: "a \<noteq> NaN \<Longrightarrow> js_ge (Math_max (Math_floor a) (Fin 0)) (Fin 0)"
  by (cases a) (auto simp: Math_max_def js_ge_def)

lemma clamped_high:
  "a \<noteq> NaN \<Longrightarrow> js_le (Math_min (Math_ceil a) (js_sub (Fin w) (Fin 1))) (Fin (w - 1))"
  by (cases a) (auto simp: Math_min_def js_sub_def)

lemma ensureNumber_not_NaN: "ensureNumber a (Fin d) \<noteq> NaN"
  by (cases a) (auto simp: ensureNumber_def)

lemma extent_sign:
  assumes "a \<noteq> NaN" "c \<noteq> NaN"
  shows "js_ge (js_add (js_sub (Math_min (Math_ceil c) (js_sub (Fin w) (Fin 1)))
                          (Math_max (Math_floor a) (Fin 0))) (Fin 1)) (Fin 0)
         \<longleftrightarrow> js_le (Math_max (Math_floor a) (Fin 0))
               (js_add (Math_min (Math_ceil c) (js_sub (Fin w) (Fin 1))) (Fin 1))"
  using assms by (cases a; cases c) (auto simp: Math_min_def Math_max_def js_sub_def js_ge_def)

lemma extent_overlap:
  assumes "js_le a c" "js_le a (Fin w)" "js_le (Fin (- 1)) c" "0 \<le> w"
  shows "js_le (Math_max (Math_floor (ensureNumber a (Fin 0))) (Fin 0))
           (js_add (Math_min (Math_ceil (ensureNumber c (Fin w))) (js_sub (Fin w) (Fin 1))) (Fin 1))"
proof (cases a; cases c)
  fix x y assume ac: "a = Fin x" "c = Fin y"
  with assms have xy: "x \<le> y" "x \<le> w" "- 1 \<le> y" by simp_all
  have "real_of_int \<lfloor>x\<rfloor> \<le> real_of_int \<lceil>y\<rceil>"
    using xy(1) by (meson ceiling_mono floor_le_ceiling of_int_le_iff order_trans floor_mono)
  moreover have "real_of_int \<lfloor>x\<rfloor> \<le> w" using xy(2) by linarith
  moreover have "0 \<le> real_of_int \<lceil>y\<rceil> + 1" using xy(3) by linarith
  ultimately show ?thesis
    using ac \<open>0 \<le> w\<close> by (auto simp: ensureNumber_def Math_min_def Math_max_def js_sub_def)
next
  fix x assume "a = Fin x" "c = PosInf"
  with assms show ?thesis
    by (auto simp: ensureNumber_def Math_min_def Math_max_def js_sub_def) linarith
next
  fix y assume ac: "a = NegInf" "c = Fin y"
  with assms have "0 \<le> real_of_int \<lceil>y\<rceil> + 1" by simp linarith
  with ac assms show ?thesis
    by (auto simp: ensureNumber_def Math_min_def Math_max_def js_sub_def)
qed (use assms in \<open>auto simp: ensureNumber_def Math_min_def Math_max_def js_sub_def\<close>)

text \<open>
  What the code does keep, for every pair of bounds, whose components may be negative,
  infinite or NaN, and every view: \<open>x \<ge> 0\<close>, \<open>xMax \<le> width - 1\<close> and
  \<open>width = xMax - x + 1\<close>; the width is at least zero exactly when \<open>x \<le> xMax + 1\<close>,
  which is so whenever \<open>x0 \<le> x1\<close>, \<open>x0 \<le> v.width\<close> and \<open>x1 \<ge> -1\<close>.  The same
  holds for \<open>y\<close>, \<open>yMax\<close> and the height.
\<close>

lemma clampedBounds_clamps:
  "(let r = clampedBounds ((x0, y0), (x1, y1)) v in
     js_ge (r_x r) (Fin 0) \<and>
     js_le (r_xMax r) (Fin (real (width v) - 1)) \<and>
     r_width r = js_add (js_sub (r_xMax r) (r_x r)) (Fin 1) \<and>
     (js_ge (r_width r) (Fin 0) \<longleftrightarrow> js_le (r_x r) (js_add (r_xMax r) (Fin 1))) \<and>
     (js_le x0 x1 \<and> js_le x0 (Fin (real (width v))) \<and> js_le (Fin (- 1)) x1
        \<longrightarrow> js_ge (r_width r) (Fin 0)) \<and>
     js_ge (r_y r) (Fin 0) \<and>
     js_le (r_yMax r) (Fin (real (height v) - 1)) \<and>
     r_height r = js_add (js_sub (r_yMax r) (r_y r)) (Fin 1) \<and>
     (js_ge (r_height r) (Fin 0) \<longleftrightarrow> js_le (r_y r) (js_add (r_yMax r) (Fin 1))) \<and>
     (js_le y0 y1 \<and> js_le y0 (Fin (real (height v))) \<and> js_le (Fin (- 1)) y1
        \<longrightarrow> js_ge (r_height r) (Fin 0)))"
proof -
  note nn = ensureNumber_not_NaN
  have x: "js_ge (r_x (clampedBounds ((x0, y0), (x1, y1)) v)) (Fin 0)"
    and y: "js_ge (r_y (clampedBounds ((x0, y0), (x1, y1)) v)) (Fin 0)"
    by (simp_all add: clampedBounds_def Let_def clamped_low nn)
  have xm: "js_le (r_xMax (clampedBounds ((x0, y0), (x1, y1)) v)) (Fin (real (width v) - 1))"
    and ym: "js_le (r_yMax (clampedBounds ((x0, y0), (x1, y1)) v)) (Fin (real (height v) - 1))"
    by (simp_all add: clampedBounds_def Let_def clamped_high nn)
  have w: "js_ge (r_width (clampedBounds ((x0, y0), (x1, y1)) v)) (Fin 0)
           \<longleftrightarrow> js_le (r_x (clampedBounds ((x0, y0), (x1, y1)) v))
                 (js_add (r_xMax (clampedBounds ((x0, y0), (x1, y1)) v)) (Fin 1))"
    and h: "js_ge (r_height (clampedBounds ((x0, y0), (x1, y1)) v)) (Fin 0)
           \<longleftrightarrow> js_le (r_y (clampedBounds ((x0, y0), (x1, y1)) v))
                 (js_add (r_yMax (clampedBounds ((x0, y0), (x1, y1)) v)) (Fin 1))"
    by (simp_all add: clampedBounds_def Let_def extent_sign nn)
  have wo: "js_le (r_x (clampedBounds ((x0, y0), (x1, y1)) v))
              (js_add (r_xMax (clampedBounds ((x0, y0), (x1, y1)) v)) (Fin 1))"
    if "js_le x0 x1" "js_le x0 (Fin (real (width v)))" "js_le (Fin (- 1)) x1"
    using extent_overlap [OF that] by (simp add: clampedBounds_def Let_def)
  have ho: "js_le (r_y (clampedBounds ((x0, y0), (x1, y1)) v))
              (js_add (r_yMax (clampedBounds ((x0, y0), (x1, y1)) v)) (Fin 1))"
    if "js_le y0 y1" "js_le y0 (Fin (real (height v)))" "js_le (Fin (- 1)) y1"
    using extent_overlap [OF that] by (simp add: clampedBounds_def Let_def)
  have eqs: "r_width (clampedBounds ((x0, y0), (x1, y1)) v)
               = js_add (js_sub (r_xMax (clampedBounds ((x0, y0), (x1, y1)) v))
                                (r_x (clampedBounds ((x0, y0), (x1, y1)) v))) (Fin 1)"
            "r_height (clampedBounds ((x0, y0), (x1, y1)) v)
               = js_add (js_sub (r_yMax (clampedBounds ((x0, y0), (x1, y1)) v))
                                (r_y (clampedBounds ((x0, y0), (x1, y1)) v))) (Fin 1)"
    by (simp_all add: clampedBounds_def Let_def)
  show ?thesis
    unfolding Let_def using x y xm ym w h wo ho eqs by blast
qed

lemma clampedBounds_clamps_example:
  "clampedBounds ((Fin (- 5.5), NegInf), (PosInf, Fin 250.2)) example_view
     = \<lparr>r_x = Fin 0, r_y = Fin 0, r_xMax = Fin 799, r_yMax = Fin 251,
        r_width = Fin 800, r_height = Fin 252\<rparr> \<and>
   js_ge (r_width (clampedBounds ((Fin (- 5.5), NegInf), (PosInf, Fin 250.2)) example_view))
     (Fin 0) \<and>
   js_ge (r_height (clampedBounds ((Fin (- 5.5), NegInf), (PosInf, Fin 250.2)) example_view))
     (Fin 0)"
proof -
  have v: "clampedBounds ((Fin (- 5.5), NegInf), (PosInf, Fin 250.2)) example_view
     = \<lparr>r_x = Fin 0, r_y = Fin 0, r_xMax = Fin 799, r_yMax = Fin 251,
        r_width = Fin 800, r_height = Fin 252\<rparr>"
    by (simp add: clampedBounds_def Let_def ensureNumber_def Math_max_def Math_min_def
        js_sub_def example_view_def)
  have hyp: "js_le (Fin (- 5.5)) PosInf \<and> js_le (Fin (- 5.5)) (Fin (real (width example_view)))
      \<and> js_le (Fin (- 1)) PosInf \<and> js_le NegInf (Fin 250.2)
      \<and> js_le NegInf (Fin (real (height example_view))) \<and> js_le (Fin (- 1)) (Fin 250.2)"
    by (simp add: example_view_def)
  from clampedBounds_clamps [of "Fin (- 5.5)" NegInf PosInf "Fin 250.2" example_view] hyp
  have "js_ge (r_width (clampedBounds ((Fin (- 5.5), NegInf), (PosInf, Fin 250.2)) example_view))
          (Fin 0)"
    and "js_ge (r_height (clampedBounds ((Fin (- 5.5), NegInf), (PosInf, Fin 250.2)) example_view))
          (Fin 0)"
    unfolding Let_def by blast+
  with v show ?thesis by blast
qed

lemmas parse_defs =
  StringToNumber_def trim_def is_space_def parse_radix_def parse_unsigned_def
  parse_unsigned_decimal_def parse_exponent_def parse_digits_def parse_in_base_def
  split_at_def is_exponent_mark_def is_point_def is_digit_def digit_in_def digits_value_def hex_value_def hex_table_def number_value_def
  scale10_def

lemma variant_oriented: "variant (oriented e ov g) = variant g"
  by (simp add: oriented_def orientation_def Let_def)

lemma fit_variant: "variant g' = variant g \<Longrightarrow> fit e g' v = fit e g v"
  by (simp add: fit_def)

lemma variant_fold_oriented: "variant (fold (oriented e) os g) = variant g"
  by (induction os arbitrary: g) (simp_all add: variant_oriented)

text \<open>
  C8: \<open>fit(view)\<close> does not depend on the current rotation of the globe.  After any
  sequence of \<open>orientation(o, view)\<close> mutations, each with its own text and view,
  \<open>fit\<close> returns for every view what it returned before them, and so the same value in
  any two states reached that way; the same holds when the rotation of the projection is
  replaced by any other.
\<close>

theorem fit_rotation_independent:
  "fit e (fold (oriented e) os g) v = fit e g v \<and>
   fit e (g\<lparr>projection := (projection g)\<lparr>p_rotate := r\<rparr>\<rparr>) v = fit e g v"
  by (intro conjI fit_variant) (simp_all add: variant_fold_oriented)

theorem fit_rotation_independent_witness:
  "p_rotate (projection (fold (oriented example_env)
       [(''10,20,300'', example_view), (''-73.99,40.73,500'', example_view)] example_globe))
     = (Fin 73.99, Fin (- 40.73), Fin 0) \<and>
   p_rotate (projection example_globe) = (Fin 75, Fin 0, Fin 0) \<and>
   fit example_env (fold (oriented example_env)
       [(''10,20,300'', example_view), (''-73.99,40.73,500'', example_view)] example_globe)
       example_view = Fin 120 \<and>
   fit example_env example_globe example_view = Fin 120"
proof -
  have f: "fit example_env example_globe example_view = Fin 120"
    by (simp add: fit_def example_globe_def newGlobe_def example_env_def example_view_def
        example_bounds_def example_projection_def precision_to_def currentPosition_def
        Let_def js_sub_def Math_min_def)
  have r0: "p_rotate (projection example_globe) = (Fin 75, Fin 0, Fin 0)"
    by (simp add: example_globe_def newGlobe_def precision_to_def currentPosition_def
        example_env_def example_projection_def floorMod_def)
  have n1: "StringToNumber ''-73.99'' = Fin (- 73.99)"
    and n2: "StringToNumber ''40.73'' = Fin 40.73"
    and n3: "StringToNumber ''10'' = Fin 10"
    and n4: "StringToNumber ''20'' = Fin 20"
    by (simp_all add: parse_defs)
  have r: "p_rotate (projection (oriented example_env (''-73.99,40.73,500'', example_view) g))
             = (Fin 73.99, Fin (- 40.73), snd (snd (p_rotate (projection g))))" for g
    by (simp add: oriented_def orientation_def Let_def entry_def to_number_def n1 n2)
  have r3: "snd (snd (p_rotate (projection (oriented example_env (''10,20,300'', example_view)
              example_globe)))) = Fin 0"
    by (simp add: oriented_def orientation_def Let_def entry_def to_number_def n3 n4 r0)
  from fit_rotation_independent
    [of example_env "[(''10,20,300'', example_view), (''-73.99,40.73,500'', example_view)]"
        example_globe example_view "(Fin 0, Fin 0, Fin 0)"]
  have a: "fit example_env (fold (oriented example_env)
       [(''10,20,300'', example_view), (''-73.99,40.73,500'', example_view)] example_globe)
       example_view = Fin 120"
    by (simp add: f)
  have b: "p_rotate (projection (fold (oriented example_env)
       [(''10,20,300'', example_view), (''-73.99,40.73,500'', example_view)] example_globe))
     = (Fin 73.99, Fin (- 40.73), Fin 0)"
    by (simp add: r r3)
  show ?thesis
    by (rule conjI [OF b conjI [OF r0 conjI [OF a f]]])
qed

lemma timezone_rotation:
  "p_rotate (rotate_to (currentPosition e) p)
     = (Fin (floorMod (timezoneOffset e / 4) 360), Fin 0, Fin 0)"
  by (simp add: currentPosition_def)

lemma floorMod_examples: "floorMod (0 / 4) 360 = 0" "floorMod (4 / 4) 360 = 1"
  by (simp_all add: floorMod_def)

lemma from_timezone_cases:
  "\<not> rotation_from_timezone (\<lambda>e. newGlobe e Atlantis)"
  "\<not> rotation_from_timezone (\<lambda>e. newGlobe e AzimuthalEquidistant)"
  "rotation_from_timezone (\<lambda>e. newGlobe e ConicEquidistant)"
  "rotation_from_timezone (\<lambda>e. newGlobe e Equirectangular)"
  "rotation_from_timezone (\<lambda>e. newGlobe e Orthographic)"
  "\<not> rotation_from_timezone (\<lambda>e. newGlobe e Stereographic)"
  "\<not> rotation_from_timezone (\<lambda>e. newGlobe e Waterman)"
  "\<not> rotation_from_timezone (\<lambda>e. newGlobe e Winkel3)"
proof -
  show "rotation_from_timezone (\<lambda>e. newGlobe e ConicEquidistant)"
    "rotation_from_timezone (\<lambda>e. newGlobe e Equirectangular)"
    "rotation_from_timezone (\<lambda>e. newGlobe e Orthographic)"
    by (simp_all add: rotation_from_timezone_def newGlobe_def precision_to_def
        clipAngle_to_def timezone_rotation)
  show "\<not> rotation_from_timezone (\<lambda>e. newGlobe e Atlantis)"
    "\<not> rotation_from_timezone (\<lambda>e. newGlobe e AzimuthalEquidistant)"
    "\<not> rotation_from_timezone (\<lambda>e. newGlobe e Stereographic)"
    by (simp_all add: rotation_from_timezone_def newGlobe_def precision_to_def
        clipAngle_to_def clipExtent_to_def)
  have "p_rotate (projection (newGlobe (example_env\<lparr>timezoneOffset := 0\<rparr>) Waterman v))
          \<noteq> (Fin (floorMod (timezoneOffset (example_env\<lparr>timezoneOffset := 0\<rparr>) / 4) 360),
             Fin 0, Fin 0)" for v
    by (simp add: newGlobe_def precision_to_def floorMod_def)
  then show "\<not> rotation_from_timezone (\<lambda>e. newGlobe e Waterman)"
    unfolding rotation_from_timezone_def by blast
  have "p_rotate (projection (newGlobe (example_env\<lparr>timezoneOffset := 4\<rparr>) Winkel3 v))
          \<noteq> (Fin (floorMod (timezoneOffset (example_env\<lparr>timezoneOffset := 4\<rparr>) / 4) 360),
             Fin 0, Fin 0)" for v
    by (simp add: newGlobe_def precision_to_def floorMod_def example_env_def
        example_projection_def)
  then show "\<not> rotation_from_timezone (\<lambda>e. newGlobe e Winkel3)"
    unfolding rotation_from_timezone_def by blast
qed

lemma fixed_cases:
  "rotation_fixed (\<lambda>e. newGlobe e Atlantis)"
  "rotation_fixed (\<lambda>e. newGlobe e AzimuthalEquidistant)"
  "\<not> rotation_fixed (\<lambda>e. newGlobe e ConicEquidistant)"
  "\<not> rotation_fixed (\<lambda>e. newGlobe e Equirectangular)"
  "\<not> rotation_fixed (\<lambda>e. newGlobe e Orthographic)"
  "rotation_fixed (\<lambda>e. newGlobe e Stereographic)"
  "rotation_fixed (\<lambda>e. newGlobe e Waterman)"
  "rotation_fixed (\<lambda>e. newGlobe e Winkel3)"
proof -
  show "rotation_fixed (\<lambda>e. newGlobe e Atlantis)"
    "rotation_fixed (\<lambda>e. newGlobe e AzimuthalEquidistant)"
    "rotation_fixed (\<lambda>e. newGlobe e Stereographic)"
    "rotation_fixed (\<lambda>e. newGlobe e Waterman)"
    "rotation_fixed (\<lambda>e. newGlobe e Winkel3)"
    by (simp_all add: rotation_fixed_def newGlobe_def precision_to_def
        clipAngle_to_def clipExtent_to_def)
  have moved: "Fin (floorMod (timezoneOffset (example_env\<lparr>timezoneOffset := 4\<rparr>) / 4) 360)
      \<noteq> Fin (floorMod (timezoneOffset (example_env\<lparr>timezoneOffset := 0\<rparr>) / 4) 360)"
    by (simp add: floorMod_def)
  have "\<not> rotation_fixed (\<lambda>e. newGlobe e k)"
    if "\<And>e v. p_rotate (projection (newGlobe e k v))
                = (Fin (floorMod (timezoneOffset e / 4) 360), Fin 0, Fin 0)" for k
  proof
    assume "rotation_fixed (\<lambda>e. newGlobe e k)"
    then have "p_rotate (projection (newGlobe (example_env\<lparr>timezoneOffset := 0, timezoneOffset := 4\<rparr>) k example_view))
        = p_rotate (projection (newGlobe (example_env\<lparr>timezoneOffset := 0\<rparr>) k example_view))"
      unfolding rotation_fixed_def by blast
    with that moved show False by simp
  qed
  then show "\<not> rotation_fixed (\<lambda>e. newGlobe e ConicEquidistant)"
    "\<not> rotation_fixed (\<lambda>e. newGlobe e Equirectangular)"
    "\<not> rotation_fixed (\<lambda>e. newGlobe e Orthographic)"
    by (simp_all add: newGlobe_def precision_to_def clipAngle_to_def timezone_rotation)
qed

text \<open>
  C3 as the spec states it: seven of the eight constructors take their default rotation
  from the timezone.  The number of those that do is not seven.
\<close>

theorem seven_from_timezone_counterexample:
  "\<not> length (filter (\<lambda>nc. rotation_from_timezone (snd nc)) globes) = 7"
  by (simp add: globes_def from_timezone_cases)

text \<open>
  C3, amended: the registry has eight constructors; exactly three of them, the conic
  equidistant, the equirectangular and the orthographic one, take their default rotation
  from the timezone offset as \<open>floorMod(offset / 4, 360)\<close>, and the rotation of each of the
  other five does not depend on the timezone.
\<close>

theorem three_from_timezone:
  "map fst globes =
     [''atlantis'', ''azimuthal_equidistant'', ''conic_equidistant'', ''equirectangular'',
      ''orthographic'', ''stereographic'', ''waterman'', ''winkel3''] \<and>
   map fst (filter (\<lambda>nc. rotation_from_timezone (snd nc)) globes) =
     [''conic_equidistant'', ''equirectangular'', ''orthographic''] \<and>
   map fst (filter (\<lambda>nc. rotation_fixed (snd nc)) globes) =
     [''atlantis'', ''azimuthal_equidistant'', ''stereographic'', ''waterman'', ''winkel3'']"
  by (simp add: globes_def from_timezone_cases fixed_cases)

section \<open>Facts about the relief cache\<close>

lemma drawRelief_cache_cases:
  "reliefCache (snd (drawRelief e v p g)) = reliefCache g \<or>
   (\<not> useReliefLo g \<and>
    (\<exists>out. fst (drawRelief e v p g) = Composited out \<and>
       reliefCache (snd (drawRelief e v p g))
         = AList.update (getReliefCacheKey p v) out (reliefCache g)))"
  by (auto simp: drawRelief_def Let_def drawn_def split: option.splits sum.splits)


lemma drawRelief_lo_cache:
  "useReliefLo g \<Longrightarrow> reliefCache (snd (drawRelief e v p g)) = reliefCache g"
  using drawRelief_cache_cases [of e v p g] by blast

lemma drawRelief_lo_any_cache:
  assumes "useReliefLo g"
  shows "drawRelief e v p (g\<lparr>reliefCache := c\<rparr>)
           = (fst (drawRelief e v p g), (snd (drawRelief e v p g))\<lparr>reliefCache := c\<rparr>)"
  using assms
  by (auto simp: drawRelief_def Let_def drawn_def split: option.splits sum.splits)

lemma drawRelief_lo_composited:
  assumes "useReliefLo g" "loaded (reliefLo g)" "data (reliefLo g) = Some src"
    "reliefCanvas g = Some cv" "reliefFastCanvas g = Some fc"
    "createImageData (c_width fc) (c_height fc) = Inr im"
    "sweep_lo e v p (reliefLo g) src (c_width fc) (c_height fc) (i_data im) = Inr d"
  shows "fst (drawRelief e v p g) = Composited (im\<lparr>i_data := d\<rparr>)"
  using assms by (simp add: drawRelief_def Let_def drawn_def)

text \<open>
  C9: a render call with the low-resolution flag set neither reads nor writes the cache.
  The cache after the call is the cache before it; the call takes the same path and leaves
  the same globe whatever the cache holds, also an entry under the current key; and when
  the tier is loaded and the surfaces are there, the buffer it puts on the working surface
  is the one the downsampled sweep filled.
\<close>

theorem low_res_leaves_cache:
  "useReliefLo g \<Longrightarrow>
     reliefCache (snd (drawRelief e v p g)) = reliefCache g \<and>
     drawRelief e v p (g\<lparr>reliefCache := c\<rparr>)
       = (fst (drawRelief e v p g), (snd (drawRelief e v p g))\<lparr>reliefCache := c\<rparr>) \<and>
     (loaded (reliefLo g) \<and> data (reliefLo g) = Some src \<and> reliefCanvas g = Some cv \<and>
      reliefFastCanvas g = Some fc \<and> createImageData (c_width fc) (c_height fc) = Inr im \<and>
      sweep_lo e v p (reliefLo g) src (c_width fc) (c_height fc) (i_data im) = Inr d
      \<longrightarrow> fst (drawRelief e v p g) = Composited (im\<lparr>i_data := d\<rparr>))"
  using drawRelief_lo_cache drawRelief_lo_any_cache drawRelief_lo_composited by blast


lemma attenuate_opaque: "attenuate 255 = 179"
  by (simp add: attenuate_def fl_defs)

lemma attenuate_45: "attenuate 45 = 31"
  by (simp add: attenuate_def fl_defs)

lemma round64_numeral: "(numeral k :: real) < 2 ^ 53 \<Longrightarrow> round64 (numeral k) = Fin (numeral k)"
proof -
  assume "(numeral k :: real) < 2 ^ 53"
  then have "real (numeral k) < real (2 ^ 53)" by simp
  then have "(numeral k :: nat) < 2 ^ 53" by (simp only: of_nat_less_iff)
  from round64_nat [OF this] show ?thesis by simp
qed

lemma round64_one: "round64 1 = Fin 1"
  using round64_nat [of 1] by simp

lemmas small_defs =
  small_view_def small_projection_def small_relief_def small_globe_def newGlobe_def
  example_env_def example_invert_def example_projection_def

lemma small_raster_ix:
  "raster_ix 2 (Fin (- 120)) = Fin 0" "raster_ix 2 (Fin (- 60)) = Fin 0"
  "raster_ix 2 (Fin 0) = Fin 1" "raster_ix 2 (Fin 60) = Fin 1" "raster_ix 2 (Fin 120) = Fin 1"
  by (simp_all add: raster_ix_def fl_defs)

lemma small_raster_iy:
  "raster_iy 1 (Fin 0) = Fin 0" "raster_iy 1 (Fin 60) = Fin 0"
  by (simp_all add: raster_iy_def fl_defs)

text \<open>The lookup rounds as binary64 does: for this longitude the exact product would be
  just below \<open>2331.5\<close>, the rounded one is \<open>2331.5\<close>, and the column is 2332.\<close>

lemma raster_ix_tie: "raster_ix 4096 (Fin (878449377866223 / 2 ^ 45)) = Fin 2332"
  by (simp add: raster_ix_def fl_defs)

lemmas small_raster =
  small_raster_ix small_raster_ix [unfolded numeral_2_eq_2]
  small_raster_iy [unfolded One_nat_def]

lemmas sweep_defs =
  sweep_lo_def sweep_hi_def composite_def small_raster createImageData_def
  stored_def stored_alpha_def js_sub_def js_ge_def Let_def
  fl_add_def fl_sub_def fl_mul_def fl_div_def round64_zero round64_one round64_numeral

lemma small_sweep_lo:
  "sweep_lo example_env small_view (small_projection (Fin 1)) small_relief
     [10, 20, 30, 255, 40, 50, 60, 45] 1 1 [0, 0, 0, 0] = Inr [10, 20, 30, 179]"
  by (simp add: small_defs sweep_defs attenuate_opaque)

lemma small_sweep_hi_half:
  "sweep_hi example_env small_view (small_projection (Fin (1 / 2))) small_relief
     [10, 20, 30, 255, 40, 50, 60, 45] (replicate 32 0)
   = Inr [0, 0, 0, 0, 0, 0, 0, 0, 0, 0, 0, 0, 0, 0, 0, 0, 0, 0, 0, 0,
          10, 20, 30, 179, 40, 50, 60, 31, 40, 50, 60, 31]"
  by (simp add: small_defs sweep_defs attenuate_opaque attenuate_45 numeral_eq_Suc)










theorem low_res_leaves_cache_witness:
  "(let g = small_globe\<lparr>useReliefLo := True,
              reliefCache := [(getReliefCacheKey (small_projection (Fin 1)) small_view,
                               \<lparr>i_width = 4, i_height = 2, i_data = replicate 32 7\<rparr>)]\<rparr>;
        r = drawRelief example_env small_view (small_projection (Fin 1)) g
    in reliefCache (snd r) = reliefCache g \<and>
       fst r = Composited \<lparr>i_width = 1, i_height = 1, i_data = [10, 20, 30, 179]\<rparr>)"
proof -
  define g where "g = small_globe\<lparr>useReliefLo := True,
              reliefCache := [(getReliefCacheKey (small_projection (Fin 1)) small_view,
                               \<lparr>i_width = 4, i_height = 2, i_data = replicate 32 7\<rparr>)]\<rparr>"
  have f: "useReliefLo g" "loaded (reliefLo g)"
    "data (reliefLo g) = Some [10, 20, 30, 255, 40, 50, 60, 45]"
    "reliefLo g = small_relief"
    "reliefCanvas g = Some \<lparr>c_width = 4, c_height = 2, c_smoothing = True, c_ops = []\<rparr>"
    "reliefFastCanvas g = Some \<lparr>c_width = 1, c_height = 1, c_smoothing = True, c_ops = []\<rparr>"
    by (simp_all add: g_def small_globe_def small_relief_def)
  have im: "createImageData 1 1 = Inr \<lparr>i_width = 1, i_height = 1, i_data = [0, 0, 0, 0]\<rparr>"
    by (simp add: createImageData_def numeral_eq_Suc)
  from low_res_leaves_cache [of g example_env small_view "small_projection (Fin 1)"
      "reliefCache g" "[10, 20, 30, 255, 40, 50, 60, 45]"
      "\<lparr>c_width = 4, c_height = 2, c_smoothing = True, c_ops = []\<rparr>"
      "\<lparr>c_width = 1, c_height = 1, c_smoothing = True, c_ops = []\<rparr>"
      "\<lparr>i_width = 1, i_height = 1, i_data = [0, 0, 0, 0]\<rparr>" "[10, 20, 30, 179]"]
  have "reliefCache (snd (drawRelief example_env small_view (small_projection (Fin 1)) g))
          = reliefCache g \<and>
        fst (drawRelief example_env small_view (small_projection (Fin 1)) g)
          = Composited \<lparr>i_width = 1, i_height = 1, i_data = [10, 20, 30, 179]\<rparr>"
    using f im small_sweep_lo by simp
  then show ?thesis
    unfolding Let_def g_def [symmetric] .
qed

section \<open>Facts about the pixel sweep\<close>























end
